theory Spec2Isabelle
  imports Complex_Main "HOL-Library.Word"
begin

section \<open>JavaScript strings and numbers\<close>

text \<open>
  A JavaScript string is a sequence of UTF-16 code units. The text of the backing file
  is the string that \<^verbatim>\<open>fs.readFile(path, 'utf8')\<close> returns and that
  \<^verbatim>\<open>fs.writeFile(path, text, 'utf8')\<close> receives.
\<close>

type_synonym jsstring = "16 word list"

text \<open>An ASCII literal as a JavaScript string.\<close>

definition js :: "string \<Rightarrow> jsstring" where
  "js s = map of_char s"

text \<open>
  White space and line terminators of ECMAScript, the code units that
  \<^verbatim>\<open>String.prototype.trim\<close> and \<^verbatim>\<open>parseInt\<close> strip.
\<close>

definition is_space :: "16 word \<Rightarrow> bool" where
  "is_space c \<longleftrightarrow>
     c = 0x09 \<or> c = 0x0A \<or> c = 0x0B \<or> c = 0x0C \<or> c = 0x0D \<or> c = 0x20 \<or> c = 0xA0 \<or>
     c = 0x1680 \<or> (0x2000 \<le> c \<and> c \<le> 0x200A) \<or> c = 0x2028 \<or> c = 0x2029 \<or>
     c = 0x202F \<or> c = 0x205F \<or> c = 0x3000 \<or> c = 0xFEFF"

definition trim :: "jsstring \<Rightarrow> jsstring" where
  "trim s = rev (dropWhile is_space (rev (dropWhile is_space s)))"

text \<open>
  Numbers are IEEE 754 doubles. The identifier of a todo is an integer: the model holds
  it as an \<open>int\<close>, which stands for a JavaScript number when a double has that value
  (every integer up to \<open>2^53\<close> in absolute value does). Arithmetic rounds its exact
  result to the nearest double, ties to the even significand.
\<close>

text \<open>
  The distance between the doubles around a magnitude: 1 below \<open>2^53\<close>, 2 from
  there to \<open>2^54\<close>, and so on.
\<close>

function ulp :: "int \<Rightarrow> int" where
  "ulp n = (if n < 2 ^ 53 then 1 else 2 * ulp (n div 2))"
  by pat_completeness auto
termination
  by (relation "measure nat") auto

declare ulp.simps [simp del]

definition round_magnitude :: "int \<Rightarrow> int" where
  "round_magnitude n =
     (let q = ulp n; m = n div q; r = n mod q
      in if 2 * r < q \<or> (2 * r = q \<and> even m) then m * q else (m + 1) * q)"

text \<open>The integer that the double nearest to an integer holds (\<open>2^1024\<close> stands for infinity).\<close>

definition to_double :: "int \<Rightarrow> int" where
  "to_double i = (if i < 0 then - round_magnitude (- i) else round_magnitude i)"

text \<open>
  The result of \<^verbatim>\<open>parseInt\<close>: \<^verbatim>\<open>NaN\<close>, an integer-valued double, or an infinity when
  the digits exceed the range of the doubles.
\<close>

datatype jsnum = NaN | Num int | Infinity | Minus_Infinity

definition js_number :: "int \<Rightarrow> jsnum" where
  "js_number i =
     (let m = to_double i
      in if 2 ^ 1024 \<le> m then Infinity
         else if m \<le> - (2 ^ 1024) then Minus_Infinity
         else Num m)"

text \<open>The value of a digit of \<^verbatim>\<open>parseInt\<close>: \<open>0-9\<close>, \<open>a-z\<close>, \<open>A-Z\<close>.\<close>

definition digit_val :: "16 word \<Rightarrow> nat option" where
  "digit_val c =
     (if 0x30 \<le> c \<and> c \<le> 0x39 then Some (unat c - 48)
      else if 0x61 \<le> c \<and> c \<le> 0x7A then Some (unat c - 87)
      else if 0x41 \<le> c \<and> c \<le> 0x5A then Some (unat c - 55)
      else None)"

definition is_radix_digit :: "nat \<Rightarrow> 16 word \<Rightarrow> bool" where
  "is_radix_digit R c = (case digit_val c of None \<Rightarrow> False | Some v \<Rightarrow> v < R)"

definition radix_value :: "nat \<Rightarrow> jsstring \<Rightarrow> nat" where
  "radix_value R Z = fold (\<lambda>c n. n * R + (case digit_val c of None \<Rightarrow> 0 | Some v \<Rightarrow> v)) Z 0"

text \<open>
  \<^verbatim>\<open>parseInt(string)\<close> with no radix: leading white space is skipped, then an optional
  sign, then an optional \<^verbatim>\<open>0x\<close> or \<^verbatim>\<open>0X\<close> (which selects radix 16); the longest prefix of
  digits of the radix is the value, rounded to a double, and \<^verbatim>\<open>NaN\<close> when that prefix
  is empty.
\<close>

definition parseInt :: "jsstring \<Rightarrow> jsnum" where
  "parseInt string =
     (let S0 = dropWhile is_space string;
          sign = (case S0 of [] \<Rightarrow> 1 | c # _ \<Rightarrow> if c = 0x2D then - 1 else (1::int));
          S1 = (case S0 of [] \<Rightarrow> [] | c # r \<Rightarrow> if c = 0x2B \<or> c = 0x2D then r else S0);
          hex = (case S1 of c0 # c1 # _ \<Rightarrow> c0 = 0x30 \<and> (c1 = 0x78 \<or> c1 = 0x58) | _ \<Rightarrow> False);
          R = (if hex then 16 else 10);
          S2 = (if hex then drop 2 S1 else S1);
          Z = takeWhile (is_radix_digit R) S2
      in if Z = [] then NaN else js_number (sign * int (radix_value R Z)))"

section \<open>JSON\<close>

text \<open>
  A parsed document. A number carries the exact value of its literal (JavaScript rounds
  it to a double); an object carries its members as the text lists them.
\<close>

datatype json =
    JNull
  | JBool bool
  | JNum rat
  | JStr jsstring
  | JArr "json list"
  | JObj "(jsstring \<times> json) list"

text \<open>
  \<^verbatim>\<open>ToBoolean\<close> on a property of a parsed request body; \<open>None\<close> is \<^verbatim>\<open>undefined\<close>
  (the property is absent).
\<close>

fun truthy :: "json option \<Rightarrow> bool" where
  "truthy None = False"
| "truthy (Some JNull) = False"
| "truthy (Some (JBool b)) = b"
| "truthy (Some (JNum r)) = (r \<noteq> 0)"
| "truthy (Some (JStr s)) = (s \<noteq> [])"
| "truthy (Some (JArr vs)) = True"
| "truthy (Some (JObj ms)) = True"

subsection \<open>\<^verbatim>\<open>JSON.parse\<close>\<close>

definition is_json_ws :: "16 word \<Rightarrow> bool" where
  "is_json_ws c \<longleftrightarrow> c = 0x20 \<or> c = 0x0A \<or> c = 0x0D \<or> c = 0x09"

definition skip_ws :: "jsstring \<Rightarrow> jsstring" where
  "skip_ws s = dropWhile is_json_ws s"

definition hex_val :: "16 word \<Rightarrow> nat option" where
  "hex_val c =
     (if 0x30 \<le> c \<and> c \<le> 0x39 then Some (unat c - 48)
      else if 0x61 \<le> c \<and> c \<le> 0x66 then Some (unat c - 87)
      else if 0x41 \<le> c \<and> c \<le> 0x46 then Some (unat c - 55)
      else None)"

definition hex4 :: "16 word \<Rightarrow> 16 word \<Rightarrow> 16 word \<Rightarrow> 16 word \<Rightarrow> 16 word option" where
  "hex4 h1 h2 h3 h4 =
     (case (hex_val h1, hex_val h2, hex_val h3, hex_val h4) of
        (Some a, Some b, Some c, Some d) \<Rightarrow> Some (of_nat (((a * 16 + b) * 16 + c) * 16 + d))
      | _ \<Rightarrow> None)"

text \<open>The character after a backslash, other than \<^verbatim>\<open>u\<close>.\<close>

definition unescape :: "16 word \<Rightarrow> 16 word option" where
  "unescape e =
     (if e = 0x22 then Some 0x22
      else if e = 0x5C then Some 0x5C
      else if e = 0x2F then Some 0x2F
      else if e = 0x62 then Some 0x08
      else if e = 0x66 then Some 0x0C
      else if e = 0x6E then Some 0x0A
      else if e = 0x72 then Some 0x0D
      else if e = 0x74 then Some 0x09
      else None)"

definition cons_result :: "'a \<Rightarrow> ('a list \<times> 'b) option \<Rightarrow> ('a list \<times> 'b) option" where
  "cons_result x r = (case r of None \<Rightarrow> None | Some (xs, rest) \<Rightarrow> Some (x # xs, rest))"

text \<open>The characters of a string literal, after its opening quote, up to the closing one.\<close>

fun parse_chars :: "jsstring \<Rightarrow> (jsstring \<times> jsstring) option" where
  "parse_chars [] = None"
| "parse_chars (c # cs) =
     (if c = 0x22 then Some ([], cs)
      else if c = 0x5C then
        (case cs of
           [] \<Rightarrow> None
         | e # es \<Rightarrow>
             if e = 0x75 then
               (case es of
                  h1 # h2 # h3 # h4 # rest \<Rightarrow>
                    (case hex4 h1 h2 h3 h4 of
                       None \<Rightarrow> None
                     | Some w \<Rightarrow> cons_result w (parse_chars rest))
                | _ \<Rightarrow> None)
             else
               (case unescape e of
                  None \<Rightarrow> None
                | Some w \<Rightarrow> cons_result w (parse_chars es)))
      else if c < 0x20 then None
      else cons_result c (parse_chars cs))"

definition is_digit :: "16 word \<Rightarrow> bool" where
  "is_digit c \<longleftrightarrow> 0x30 \<le> c \<and> c \<le> 0x39"

definition dec_value :: "jsstring \<Rightarrow> nat" where
  "dec_value ds = fold (\<lambda>c n. n * 10 + (unat c - 48)) ds 0"

text \<open>One or more decimal digits.\<close>

definition parse_digits :: "jsstring \<Rightarrow> (jsstring \<times> jsstring) option" where
  "parse_digits s =
     (let ds = takeWhile is_digit s
      in if ds = [] then None else Some (ds, dropWhile is_digit s))"

text \<open>The optional fraction \<^verbatim>\<open>. [0-9]+\<close>: its digits.\<close>

definition parse_fraction :: "jsstring \<Rightarrow> (jsstring \<times> jsstring) option" where
  "parse_fraction s =
     (case s of
        [] \<Rightarrow> Some ([], s)
      | c # r \<Rightarrow> if c = 0x2E then parse_digits r else Some ([], s))"

text \<open>The optional exponent \<^verbatim>\<open>[eE] [+-]? [0-9]+\<close>: its value.\<close>

definition parse_exponent :: "jsstring \<Rightarrow> (int \<times> jsstring) option" where
  "parse_exponent s =
     (case s of
        [] \<Rightarrow> Some (0, s)
      | c # r \<Rightarrow>
          if c = 0x65 \<or> c = 0x45 then
            (case r of
               [] \<Rightarrow> None
             | d # r' \<Rightarrow>
                 if d = 0x2D then
                   (case parse_digits r' of
                      None \<Rightarrow> None
                    | Some (es, rest) \<Rightarrow> Some (- int (dec_value es), rest))
                 else
                   (case parse_digits (if d = 0x2B then r' else r) of
                      None \<Rightarrow> None
                    | Some (es, rest) \<Rightarrow> Some (int (dec_value es), rest)))
          else Some (0, s))"

text \<open>
  A number literal: \<^verbatim>\<open>-? (0 | [1-9][0-9]*) (. [0-9]+)? ([eE] [+-]? [0-9]+)?\<close>, with its
  exact value.
\<close>

definition parse_number :: "jsstring \<Rightarrow> (rat \<times> jsstring) option" where
  "parse_number s =
     (let neg = (case s of [] \<Rightarrow> False | c # _ \<Rightarrow> c = 0x2D);
          s1 = (if neg then tl s else s)
      in case parse_digits s1 of
           None \<Rightarrow> None
         | Some (ds, s2) \<Rightarrow>
             if length ds > 1 \<and> hd ds = 0x30 then None
             else
               (case parse_fraction s2 of
                  None \<Rightarrow> None
                | Some (fs, s3) \<Rightarrow>
                    (case parse_exponent s3 of
                       None \<Rightarrow> None
                     | Some (ex, s4) \<Rightarrow>
                         (let m = (of_nat (dec_value (ds @ fs)) :: rat);
                              e = ex - int (length fs);
                              v = (if 0 \<le> e then m * 10 ^ nat e else m / 10 ^ nat (- e))
                          in Some (if neg then - v else v, s4)))))"

lemma cons_result_Some:
  "cons_result x r = Some (ys, rest) \<longleftrightarrow> (\<exists>xs. r = Some (xs, rest) \<and> ys = x # xs)"
  by (auto simp: cons_result_def split: option.splits)

lemma parse_chars_shorter: "parse_chars s = Some (t, r) \<Longrightarrow> length r < length s"
proof (induction s arbitrary: t r rule: parse_chars.induct)
  case 1
  then show ?case by simp
next
  case (2 c cs)
  show ?case
  proof (cases "c = 0x22")
    case True
    with "2.prems" show ?thesis by simp
  next
    case quote: False
    show ?thesis
    proof (cases "c = 0x5C")
      case False
      from quote False "2.prems" have ctl: "\<not> c < 0x20"
        by (auto split: if_splits)
      from quote False ctl "2.prems" obtain xs where "parse_chars cs = Some (xs, r)"
        by (auto simp: cons_result_Some)
      from "2.IH"(3) [OF quote False ctl this] show ?thesis by simp
    next
      case True
      with quote "2.prems" obtain e es where cs: "cs = e # es"
        by (cases cs) auto
      show ?thesis
      proof (cases "e = 0x75")
        case False
        with quote True cs "2.prems" obtain w xs
          where "unescape e = Some w" "parse_chars es = Some (xs, r)"
          by (auto simp: cons_result_Some split: option.splits)
        with "2.IH"(2) [OF quote True cs False] have "length r < length es"
          by auto
        with cs show ?thesis by simp
      next
        case u: True
        with quote True cs "2.prems" obtain h1 h2 h3 h4 rest w xs
          where es: "es = h1 # h2 # h3 # h4 # rest" and "hex4 h1 h2 h3 h4 = Some w"
            and "parse_chars rest = Some (xs, r)"
          by (auto simp: cons_result_Some split: option.splits list.splits)
        with "2.IH"(1) [OF quote True cs u] have "length r < length rest"
          by auto
        with cs es show ?thesis by simp
      qed
    qed
  qed
qed

lemma skip_ws_length: "length (skip_ws s) \<le> length s"
  by (simp add: skip_ws_def length_dropWhile_le)

lemma skip_ws_Cons_length: "skip_ws s = c # r \<Longrightarrow> length r < length s"
  using skip_ws_length [of s] by simp

text \<open>
  Values, the elements of an array after \<^verbatim>\<open>[\<close> or a comma, and the members of an object
  after \<^verbatim>\<open>{\<close> or a comma. Each returns what it parsed and the rest of the text. The
  comparisons of lengths make the recursion well-founded; they hold of every result
  (\<open>parse_shorter\<close> below), so that no text is rejected by them.
\<close>

function parse_value :: "jsstring \<Rightarrow> (json \<times> jsstring) option"
  and parse_elems :: "jsstring \<Rightarrow> (json list \<times> jsstring) option"
  and parse_members :: "jsstring \<Rightarrow> ((jsstring \<times> json) list \<times> jsstring) option"
where
  "parse_value s =
     (case skip_ws s of
        [] \<Rightarrow> None
      | c # r \<Rightarrow>
          if c = 0x22 then
            (case parse_chars r of None \<Rightarrow> None | Some (t, r') \<Rightarrow> Some (JStr t, r'))
          else if c = 0x5B then
            (case skip_ws r of
               [] \<Rightarrow> None
             | d # r' \<Rightarrow>
                 if d = 0x5D then Some (JArr [], r')
                 else (case parse_elems r of None \<Rightarrow> None | Some (vs, r'') \<Rightarrow> Some (JArr vs, r'')))
          else if c = 0x7B then
            (case skip_ws r of
               [] \<Rightarrow> None
             | d # r' \<Rightarrow>
                 if d = 0x7D then Some (JObj [], r')
                 else (case parse_members r of None \<Rightarrow> None | Some (ms, r'') \<Rightarrow> Some (JObj ms, r'')))
          else if take 4 (c # r) = js ''true'' then Some (JBool True, drop 4 (c # r))
          else if take 5 (c # r) = js ''false'' then Some (JBool False, drop 5 (c # r))
          else if take 4 (c # r) = js ''null'' then Some (JNull, drop 4 (c # r))
          else (case parse_number (c # r) of None \<Rightarrow> None | Some (x, r') \<Rightarrow> Some (JNum x, r')))"
| "parse_elems s =
     (case parse_value s of
        None \<Rightarrow> None
      | Some (v, r) \<Rightarrow>
          if length s \<le> length r then None
          else
            (case skip_ws r of
               [] \<Rightarrow> None
             | c # r' \<Rightarrow>
                 if c = 0x2C then cons_result v (parse_elems r')
                 else if c = 0x5D then Some ([v], r')
                 else None))"
| "parse_members s =
     (case skip_ws s of
        [] \<Rightarrow> None
      | q # r \<Rightarrow>
          if q \<noteq> 0x22 then None
          else
            (case parse_chars r of
               None \<Rightarrow> None
             | Some (k, r1) \<Rightarrow>
                 (case skip_ws r1 of
                    [] \<Rightarrow> None
                  | c # r2 \<Rightarrow>
                      if c \<noteq> 0x3A then None
                      else
                        (case parse_value r2 of
                           None \<Rightarrow> None
                         | Some (v, r3) \<Rightarrow>
                             if length r2 \<le> length r3 then None
                             else
                               (case skip_ws r3 of
                                  [] \<Rightarrow> None
                                | d # r4 \<Rightarrow>
                                    if d = 0x2C then cons_result (k, v) (parse_members r4)
                                    else if d = 0x7D then Some ([(k, v)], r4)
                                    else None)))))"
  by pat_completeness auto
termination
proof (relation "measure (\<lambda>x. case x of
          Inl s \<Rightarrow> 2 * length s
        | Inr (Inl s) \<Rightarrow> 2 * length s + 1
        | Inr (Inr s) \<Rightarrow> 2 * length s + 1)", goal_cases)
  case 1
  show ?case by simp
next
  case (2 s c r d r')
  then show ?case using skip_ws_Cons_length [of s c r] by simp
next
  case (3 s c r d r')
  then show ?case using skip_ws_Cons_length [of s c r] by simp
next
  case (4 s)
  then show ?case by simp
next
  case (5 s x v r c r')
  then show ?case using skip_ws_Cons_length [of r c r'] by simp
next
  case (6 s q r x k r1 c r2)
  then show ?case
    using skip_ws_Cons_length [of s q r] parse_chars_shorter [of r k r1]
      skip_ws_Cons_length [of r1 c r2] by simp
next
  case (7 s q r x k r1 c r2 y v r3 d r4)
  then show ?case
    using skip_ws_Cons_length [of s q r] parse_chars_shorter [of r k r1]
      skip_ws_Cons_length [of r1 c r2] skip_ws_Cons_length [of r3 d r4] by simp
qed

declare parse_value.simps [simp del] parse_elems.simps [simp del] parse_members.simps [simp del]

text \<open>\<^verbatim>\<open>JSON.parse(text)\<close>: \<open>None\<close> is the \<^verbatim>\<open>SyntaxError\<close>.\<close>

definition JSON_parse :: "jsstring \<Rightarrow> json option" where
  "JSON_parse text =
     (case parse_value text of
        None \<Rightarrow> None
      | Some (v, r) \<Rightarrow> if skip_ws r = [] then Some v else None)"

subsection \<open>\<^verbatim>\<open>JSON.stringify\<close>\<close>

definition hex_digit :: "nat \<Rightarrow> 16 word" where
  "hex_digit n = (if n < 10 then of_nat (48 + n) else of_nat (87 + n))"

text \<open>\<^verbatim>\<open>\uXXXX\<close> with four lower-case hexadecimal digits.\<close>

definition unicode_escape :: "16 word \<Rightarrow> jsstring" where
  "unicode_escape c =
     (let n = unat c
      in [0x5C, 0x75, hex_digit (n div 4096), hex_digit (n div 256 mod 16),
          hex_digit (n div 16 mod 16), hex_digit (n mod 16)])"

definition is_high_surrogate :: "16 word \<Rightarrow> bool" where
  "is_high_surrogate c \<longleftrightarrow> 0xD800 \<le> c \<and> c \<le> 0xDBFF"

definition is_low_surrogate :: "16 word \<Rightarrow> bool" where
  "is_low_surrogate c \<longleftrightarrow> 0xDC00 \<le> c \<and> c \<le> 0xDFFF"

text \<open>
  \<^verbatim>\<open>QuoteJSONString\<close> on one code unit that is not part of a surrogate pair: the short
  escapes, \<^verbatim>\<open>\uXXXX\<close> for the other control characters and for a lone surrogate, and
  the code unit itself otherwise.
\<close>

definition quote_unit :: "16 word \<Rightarrow> jsstring" where
  "quote_unit c =
     (if c = 0x08 then [0x5C, 0x62]
      else if c = 0x09 then [0x5C, 0x74]
      else if c = 0x0A then [0x5C, 0x6E]
      else if c = 0x0C then [0x5C, 0x66]
      else if c = 0x0D then [0x5C, 0x72]
      else if c = 0x22 then [0x5C, 0x22]
      else if c = 0x5C then [0x5C, 0x5C]
      else if c < 0x20 \<or> is_high_surrogate c \<or> is_low_surrogate c then unicode_escape c
      else [c])"

fun quote_chars :: "jsstring \<Rightarrow> jsstring" where
  "quote_chars [] = []"
| "quote_chars [c] = quote_unit c"
| "quote_chars (c # d # cs) =
     (if is_high_surrogate c \<and> is_low_surrogate d then c # d # quote_chars cs
      else quote_unit c @ quote_chars (d # cs))"

definition QuoteJSONString :: "jsstring \<Rightarrow> jsstring" where
  "QuoteJSONString s = 0x22 # quote_chars s @ [0x22]"

definition digit_char :: "nat \<Rightarrow> 16 word" where
  "digit_char d = 0x30 + of_nat d"

text \<open>The decimal digits of a natural number, most significant first.\<close>

fun dec_digits :: "nat \<Rightarrow> jsstring" where
  "dec_digits n =
     (if n < 10 then [digit_char n] else dec_digits (n div 10) @ [digit_char (n mod 10)])"

declare dec_digits.simps [simp del]

text \<open>\<^verbatim>\<open>Number::toString\<close> on an integer.\<close>

definition number_to_string :: "int \<Rightarrow> jsstring" where
  "number_to_string i = (if i < 0 then 0x2D # dec_digits (nat (- i)) else dec_digits (nat i))"

section \<open>Todos\<close>

record todo =
  id' :: int
  title :: jsstring
  completed :: bool
  createTime :: jsstring

text \<open>The object that a todo is in a parsed document.\<close>

definition todo_json :: "todo \<Rightarrow> json" where
  "todo_json t =
     JObj [(js ''id'', JNum (of_int (id' t))), (js ''title'', JStr (title t)),
           (js ''completed'', JBool (completed t)), (js ''createTime'', JStr (createTime t))]"

definition as_int :: "json \<Rightarrow> int option" where
  "as_int v = (case v of JNum r \<Rightarrow> if of_int \<lfloor>r\<rfloor> = r then Some \<lfloor>r\<rfloor> else None | _ \<Rightarrow> None)"

definition as_string :: "json \<Rightarrow> jsstring option" where
  "as_string v = (case v of JStr s \<Rightarrow> Some s | _ \<Rightarrow> None)"

definition as_bool :: "json \<Rightarrow> bool option" where
  "as_bool v = (case v of JBool b \<Rightarrow> Some b | _ \<Rightarrow> None)"

text \<open>
  The persisted schema: an object with exactly the properties \<^verbatim>\<open>id\<close> (an integer),
  \<^verbatim>\<open>title\<close> (a string), \<^verbatim>\<open>completed\<close> (a boolean) and \<^verbatim>\<open>createTime\<close> (a string), in
  this order, is a todo.
\<close>

definition as_todo :: "json \<Rightarrow> todo option" where
  "as_todo v =
     (case v of
        JObj ms \<Rightarrow>
          if map fst ms = [js ''id'', js ''title'', js ''completed'', js ''createTime''] then
            (case map snd ms of
               [a, b, c, d] \<Rightarrow>
                 (case (as_int a, as_string b, as_bool c, as_string d) of
                    (Some i, Some t, Some f, Some ct) \<Rightarrow>
                      Some \<lparr>id' = i, title = t, completed = f, createTime = ct\<rparr>
                  | _ \<Rightarrow> None)
             | _ \<Rightarrow> None)
          else None
      | _ \<Rightarrow> None)"

definition as_todos :: "json \<Rightarrow> todo list option" where
  "as_todos v = (case v of JArr vs \<Rightarrow> those (map as_todo vs) | _ \<Rightarrow> None)"

text \<open>
  \<^verbatim>\<open>JSON.stringify(todos, null, 2)\<close> on an array of todos: \<^verbatim>\<open>[]\<close> when it is empty;
  otherwise one object per todo, indented by two spaces, its four members indented by
  four, separated by a comma and a line feed.
\<close>

definition stringify_todo :: "todo \<Rightarrow> jsstring" where
  "stringify_todo t =
     js ''{'' @ [0x0A] @
     js ''    '' @ QuoteJSONString (js ''id'') @ js '': '' @ number_to_string (id' t) @
     js '','' @ [0x0A] @
     js ''    '' @ QuoteJSONString (js ''title'') @ js '': '' @ QuoteJSONString (title t) @
     js '','' @ [0x0A] @
     js ''    '' @ QuoteJSONString (js ''completed'') @ js '': '' @
       (if completed t then js ''true'' else js ''false'') @
     js '','' @ [0x0A] @
     js ''    '' @ QuoteJSONString (js ''createTime'') @ js '': '' @
       QuoteJSONString (createTime t) @ [0x0A] @
     js ''  }''"

fun join_elements :: "jsstring list \<Rightarrow> jsstring" where
  "join_elements [] = []"
| "join_elements [x] = x"
| "join_elements (x # y # ys) = x @ js '','' @ [0x0A] @ js ''  '' @ join_elements (y # ys)"

definition JSON_stringify :: "todo list \<Rightarrow> jsstring" where
  "JSON_stringify todos =
     (if todos = [] then js ''[]''
      else js ''['' @ [0x0A] @ js ''  '' @ join_elements (map stringify_todo todos) @
           [0x0A] @ js '']'')"

section \<open>The store\<close>

text \<open>
  The backing file \<^verbatim>\<open>todos.json\<close>: it does not exist, it holds a text, or reading it
  fails with an error code (\<^verbatim>\<open>EACCES\<close>, \<^verbatim>\<open>EISDIR\<close>, ...).
\<close>

datatype backing_file = Missing | Text jsstring | Unreadable jsstring

text \<open>
  The disk: the backing file and, when set, the error code with which
  \<^verbatim>\<open>fs.writeFile\<close> fails. A write that fails leaves the file as it was; a write
  that succeeds replaces the file by the text written.
\<close>

record disk =
  backing :: backing_file
  write_fault :: "jsstring option"

datatype cause = SyntaxError | IOError jsstring

text \<open>
  The errors that are thrown: the two \<^verbatim>\<open>Error\<close>s of the store, with the cause whose
  message they carry, the \<^verbatim>\<open>TypeError\<close> of calling \<^verbatim>\<open>trim\<close> on a value that is
  not a string, and the \<^verbatim>\<open>RangeError\<close> of a call with more arguments than the engine
  accepts.
\<close>

datatype error = ReadFailed cause | WriteFailed cause | TypeError | RangeError

text \<open>
  The outcome of an asynchronous function: the value returned, the error thrown, or
  \<open>Untyped\<close> when the document in the file is JSON but not an array of todos of the
  persisted schema. What the handlers do with such a document is not modelled.
\<close>

datatype 'a outcome = Returns 'a | Throws error | Untyped

type_synonym 'a async = "disk \<Rightarrow> 'a outcome \<times> disk"

definition await :: "'a async \<Rightarrow> ('a \<Rightarrow> 'b async) \<Rightarrow> 'b async" where
  "await m k d =
     (case m d of
        (Returns x, d') \<Rightarrow> k x d'
      | (Throws e, d') \<Rightarrow> (Throws e, d')
      | (Untyped, d') \<Rightarrow> (Untyped, d'))"

definition return :: "'a \<Rightarrow> 'a async" where
  "return x d = (Returns x, d)"

definition throw :: "error \<Rightarrow> 'a async" where
  "throw e d = (Throws e, d)"

definition fs_readFile :: "disk \<Rightarrow> jsstring + jsstring" where
  "fs_readFile d =
     (case backing d of
        Missing \<Rightarrow> Inl (js ''ENOENT'')
      | Text fileContent \<Rightarrow> Inr fileContent
      | Unreadable code \<Rightarrow> Inl code)"

definition fs_writeFile :: "jsstring \<Rightarrow> disk \<Rightarrow> (jsstring + unit) \<times> disk" where
  "fs_writeFile data d =
     (case write_fault d of
        Some code \<Rightarrow> (Inl code, d)
      | None \<Rightarrow> (Inr (), d\<lparr>backing := Text data\<rparr>))"

definition writeTodosToFile :: "todo list \<Rightarrow> unit async" where
  "writeTodosToFile todos d =
     (let jsonContent = JSON_stringify todos
      in case fs_writeFile jsonContent d of
           (Inr u, d') \<Rightarrow> (Returns (), d')
         | (Inl code, d') \<Rightarrow> (Throws (WriteFailed (IOError code)), d'))"

definition readTodosFromFile :: "todo list async" where
  "readTodosFromFile d =
     (case fs_readFile d of
        Inr fileContent \<Rightarrow>
          (case JSON_parse fileContent of
             Some v \<Rightarrow> (case as_todos v of Some todos \<Rightarrow> (Returns todos, d) | None \<Rightarrow> (Untyped, d))
           | None \<Rightarrow> (Throws (ReadFailed SyntaxError), d))
      | Inl code \<Rightarrow>
          if code = js ''ENOENT'' then await (writeTodosToFile []) (\<lambda>u. return []) d
          else (Throws (ReadFailed (IOError code)), d))"

text \<open>
  \<^verbatim>\<open>Math.max(...todos.map(todo => todo.id)) + 1\<close>, or 1 for the empty array. The spread
  passes one argument per todo: \<open>max_arguments\<close> is the largest number of arguments that
  the engine accepts in a call, a constant of the engine, and the call throws a
  \<^verbatim>\<open>RangeError\<close> beyond it. The sum is rounded to a double.
\<close>

definition generateUniqueId :: "nat \<Rightarrow> int async" where
  "generateUniqueId max_arguments =
     await readTodosFromFile (\<lambda>todos.
       case todos of
         [] \<Rightarrow> return 1
       | t # ts \<Rightarrow>
           if max_arguments < length todos then throw RangeError
           else (let maxId = fold max (map id' ts) (id' t) in return (to_double (maxId + 1))))"

section \<open>The request handlers\<close>

text \<open>
  A handler is modelled from the arrival of the request to its response, with no other
  request in between: a function from the disk to the response and the disk after it.
\<close>

text \<open>
  The two properties that the handlers read from the parsed request body; \<open>None\<close> is
  \<^verbatim>\<open>undefined\<close>.
\<close>

record request_body =
  body_title :: "json option"
  body_completed :: "json option"

datatype message =
    Get_not_found jsnum
  | Title_required
  | Created
  | Put_not_found jsnum
  | Updated
  | Delete_not_found jsnum
  | Deleted jsnum
  | Error_message error

text \<open>
  The JSON bodies of the responses: \<^verbatim>\<open>{success: true, count, data}\<close>,
  \<^verbatim>\<open>{success: true, data}\<close>, \<^verbatim>\<open>{success: true, message, data}\<close> with a todo,
  \<^verbatim>\<open>{success: true, message, data: {id}}\<close>, and \<^verbatim>\<open>{success: false, message}\<close>.
\<close>

datatype reply =
    Success_list nat "todo list"
  | Success_todo todo
  | Success_change message todo
  | Success_delete message jsnum
  | Failure message

record response =
  status :: nat
  json :: reply

text \<open>The \<^verbatim>\<open>catch\<close> block of every handler.\<close>

definition catch :: "response async \<Rightarrow> response async" where
  "catch m d =
     (case m d of
        (Throws e, d') \<Rightarrow> (Returns \<lparr>status = 500, json = Failure (Error_message e)\<rparr>, d')
      | r \<Rightarrow> r)"

definition is_string :: "json option \<Rightarrow> bool" where
  "is_string v = (case v of Some (JStr s) \<Rightarrow> True | _ \<Rightarrow> False)"

text \<open>\<^verbatim>\<open>title.trim()\<close>: a value that is not a string has no method \<^verbatim>\<open>trim\<close>.\<close>

definition call_trim :: "json option \<Rightarrow> jsstring async" where
  "call_trim v = (case v of Some (JStr s) \<Rightarrow> return (trim s) | _ \<Rightarrow> throw TypeError)"

fun findIndex :: "('a \<Rightarrow> bool) \<Rightarrow> 'a list \<Rightarrow> nat option" where
  "findIndex P [] = None"
| "findIndex P (x # xs) = (if P x then Some 0 else map_option Suc (findIndex P xs))"

text \<open>\<^verbatim>\<open>todos.splice(i, 1)\<close>\<close>

definition splice1 :: "nat \<Rightarrow> 'a list \<Rightarrow> 'a list" where
  "splice1 i xs = take i xs @ drop (Suc i) xs"

definition get_todos :: "response async" where
  "get_todos =
     catch (await readTodosFromFile (\<lambda>todos.
       return \<lparr>status = 200, json = Success_list (length todos) todos\<rparr>))"

definition get_todo :: "jsstring \<Rightarrow> response async" where
  "get_todo params_id =
     catch
       (let todoId = parseInt params_id
        in await readTodosFromFile (\<lambda>todos.
             case find (\<lambda>item. Num (id' item) = todoId) todos of
               None \<Rightarrow> return \<lparr>status = 404, json = Failure (Get_not_found todoId)\<rparr>
             | Some todo \<Rightarrow> return \<lparr>status = 200, json = Success_todo todo\<rparr>))"

text \<open>
  \<open>now\<close> is \<^verbatim>\<open>new Date().toISOString()\<close>; \<open>max_arguments\<close> is the constant of the
  engine that \<^verbatim>\<open>generateUniqueId\<close> meets.
\<close>

definition post_todo :: "nat \<Rightarrow> jsstring \<Rightarrow> request_body \<Rightarrow> response async" where
  "post_todo max_arguments now body =
     catch
       (let title = body_title body;
            completed = (case body_completed body of None \<Rightarrow> Some (JBool False) | Some v \<Rightarrow> Some v)
        in if \<not> truthy title \<or> \<not> is_string title
           then return \<lparr>status = 400, json = Failure Title_required\<rparr>
           else
             await readTodosFromFile (\<lambda>todos.
             await (generateUniqueId max_arguments) (\<lambda>newId.
             await (call_trim title) (\<lambda>trimmed.
               let newTodo = \<lparr>id' = newId, title = trimmed, completed = truthy completed,
                               createTime = now\<rparr>
               in await (writeTodosToFile (todos @ [newTodo])) (\<lambda>u.
                    return \<lparr>status = 201, json = Success_change Created newTodo\<rparr>)))))"

definition put_todo :: "jsstring \<Rightarrow> request_body \<Rightarrow> response async" where
  "put_todo params_id body =
     catch
       (let todoId = parseInt params_id;
            title = body_title body;
            completed = body_completed body
        in await readTodosFromFile (\<lambda>todos.
             case findIndex (\<lambda>item. Num (id' item) = todoId) todos of
               None \<Rightarrow> return \<lparr>status = 404, json = Failure (Put_not_found todoId)\<rparr>
             | Some todoIndex \<Rightarrow>
                 await (if truthy title
                        then await (call_trim title) (\<lambda>trimmed.
                               return ((todos ! todoIndex)\<lparr>title := trimmed\<rparr>))
                        else return (todos ! todoIndex)) (\<lambda>merged.
                   let updatedTodo =
                         (if completed \<noteq> None then merged\<lparr>completed := truthy completed\<rparr>
                          else merged)
                   in await (writeTodosToFile (todos[todoIndex := updatedTodo])) (\<lambda>u.
                        return \<lparr>status = 200, json = Success_change Updated updatedTodo\<rparr>))))"

definition delete_todo :: "jsstring \<Rightarrow> response async" where
  "delete_todo params_id =
     catch
       (let todoId = parseInt params_id
        in await readTodosFromFile (\<lambda>todos.
             case findIndex (\<lambda>item. Num (id' item) = todoId) todos of
               None \<Rightarrow> return \<lparr>status = 404, json = Failure (Delete_not_found todoId)\<rparr>
             | Some todoIndex \<Rightarrow>
                 await (writeTodosToFile (splice1 todoIndex todos)) (\<lambda>u.
                   return \<lparr>status = 200, json = Success_delete (Deleted todoId) todoId\<rparr>)))"

section \<open>The stored collection\<close>

text \<open>
  The collection that the store holds: what \<^verbatim>\<open>readTodosFromFile\<close> returns. A missing
  file holds the empty collection when it can be created.
\<close>

definition stored :: "disk \<Rightarrow> todo list option" where
  "stored d = (case fst (readTodosFromFile d) of Returns todos \<Rightarrow> Some todos | _ \<Rightarrow> None)"

text \<open>
  What the object spread of the update handler computes from the stored todo and the
  body, when \<^verbatim>\<open>title.trim()\<close> does not throw: \<^verbatim>\<open>title\<close> is replaced when the body's
  title is a non-empty string, \<^verbatim>\<open>completed\<close> when the body defines it.
\<close>

definition shallow_merge :: "request_body \<Rightarrow> todo \<Rightarrow> todo" where
  "shallow_merge body old =
     old\<lparr>title := (case body_title body of
                      Some (JStr s) \<Rightarrow> if s = [] then title old else trim s
                    | _ \<Rightarrow> title old),
         completed := (case body_completed body of
                         None \<Rightarrow> completed old
                       | Some v \<Rightarrow> truthy (Some v))\<rparr>"


section \<open>The parser consumes its input\<close>

lemma parse_digits_shorter:
  "parse_digits s = Some (ds, r) \<Longrightarrow> length r < length s"
proof -
  assume a: "parse_digits s = Some (ds, r)"
  then have ne: "takeWhile is_digit s \<noteq> []" and r: "r = dropWhile is_digit s"
    by (auto simp: parse_digits_def Let_def split: if_splits)
  have "length (takeWhile is_digit s) + length (dropWhile is_digit s) = length s"
    by (metis length_append takeWhile_dropWhile_id)
  with ne r show ?thesis by (cases "takeWhile is_digit s") auto
qed

lemma parse_fraction_shorter:
  "parse_fraction s = Some (fs, r) \<Longrightarrow> length r \<le> length s"
  by (cases s) (auto simp: parse_fraction_def split: if_splits dest!: parse_digits_shorter)

lemma parse_exponent_shorter:
  "parse_exponent s = Some (e, r) \<Longrightarrow> length r \<le> length s"
  by (cases s)
     (auto simp: parse_exponent_def split: if_splits list.splits option.splits
        dest!: parse_digits_shorter)

lemma parse_number_shorter:
  assumes "parse_number s = Some (x, r)"
  shows "length r < length s"
proof -
  define s1 where "s1 = (if (case s of [] \<Rightarrow> False | c # _ \<Rightarrow> c = 0x2D) then tl s else s)"
  have s1: "length s1 \<le> length s" by (simp add: s1_def)
  from assms obtain ds s2 fs s3 ex where "parse_digits s1 = Some (ds, s2)"
    and "parse_fraction s2 = Some (fs, s3)" and "parse_exponent s3 = Some (ex, r)"
    by (auto simp: parse_number_def Let_def s1_def split: option.splits if_splits)
  then have "length s2 < length s1" "length s3 \<le> length s2" "length r \<le> length s3"
    by (auto dest: parse_digits_shorter parse_fraction_shorter parse_exponent_shorter)
  with s1 show ?thesis by simp
qed


lemma parse_shorter:
  "\<forall>v r. parse_value s = Some (v, r) \<longrightarrow> length r < length s"
  "\<forall>vs r. parse_elems s1 = Some (vs, r) \<longrightarrow> length r < length s1"
  "\<forall>ms r. parse_members s2 = Some (ms, r) \<longrightarrow> length r < length s2"
proof (induction s and s1 and s2 rule: parse_value_parse_elems_parse_members.induct)
  case (1 s)
  show ?case
  proof (intro allI impI)
    fix v r
    assume p: "parse_value s = Some (v, r)"
    then obtain c r0 where sk: "skip_ws s = c # r0"
      by (subst (asm) parse_value.simps) (auto split: list.splits)
    have r0: "length r0 < length s" by (rule skip_ws_Cons_length [OF sk])
    consider (str) "c = 0x22" | (arr) "c \<noteq> 0x22" "c = 0x5B" | (obj) "c \<noteq> 0x22" "c \<noteq> 0x5B" "c = 0x7B"
      | (other) "c \<noteq> 0x22" "c \<noteq> 0x5B" "c \<noteq> 0x7B"
      by blast
    then show "length r < length s"
    proof cases
      case str
      with p sk obtain t where "parse_chars r0 = Some (t, r)"
        by (subst (asm) parse_value.simps) (auto split: option.splits)
      then have "length r < length r0" by (rule parse_chars_shorter)
      with r0 show ?thesis by simp
    next
      case arr
      with p sk obtain d r' where sk': "skip_ws r0 = d # r'"
        by (subst (asm) parse_value.simps) (auto split: list.splits)
      show ?thesis
      proof (cases "d = 0x5D")
        case True
        with p sk arr sk' have "r = r'"
          by (subst (asm) parse_value.simps) simp
        with skip_ws_Cons_length [OF sk'] r0 show ?thesis by simp
      next
        case False
        with p sk arr sk' obtain vs where "parse_elems r0 = Some (vs, r)"
          by (subst (asm) parse_value.simps) (auto split: option.splits)
        with "1.IH"(1) [OF sk arr sk' False] have "length r < length r0" by blast
        with r0 show ?thesis by simp
      qed
    next
      case obj
      with p sk obtain d r' where sk': "skip_ws r0 = d # r'"
        by (subst (asm) parse_value.simps) (auto split: list.splits)
      show ?thesis
      proof (cases "d = 0x7D")
        case True
        with p sk obj sk' have "r = r'"
          by (subst (asm) parse_value.simps) simp
        with skip_ws_Cons_length [OF sk'] r0 show ?thesis by simp
      next
        case False
        with p sk obj sk' obtain ms where "parse_members r0 = Some (ms, r)"
          by (subst (asm) parse_value.simps) (auto split: option.splits)
        with "1.IH"(2) [OF sk obj sk' False] have "length r < length r0" by blast
        with r0 show ?thesis by simp
      qed
    next
      case other
      with p sk have "r = drop 4 (c # r0) \<or> r = drop 5 (c # r0) \<or>
          (\<exists>x. parse_number (c # r0) = Some (x, r))"
        by (subst (asm) parse_value.simps) (auto split: if_splits option.splits)
      moreover have "length (c # r0) \<le> length s"
        using skip_ws_length [of s] sk by simp
      ultimately show ?thesis
        by (auto dest: parse_number_shorter)
    qed
  qed
next
  case (2 s)
  show ?case
  proof (intro allI impI)
    fix vs r
    assume p: "parse_elems s = Some (vs, r)"
    then obtain v r1 where v: "parse_value s = Some (v, r1)"
      by (subst (asm) parse_elems.simps) (auto split: option.splits)
    with p have lt: "\<not> length s \<le> length r1"
      by (subst (asm) parse_elems.simps) (auto split: if_splits)
    with p v obtain c r' where sk: "skip_ws r1 = c # r'"
      by (subst (asm) parse_elems.simps) (auto split: list.splits)
    have r': "length r' < length r1" by (rule skip_ws_Cons_length [OF sk])
    show "length r < length s"
    proof (cases "c = 0x2C")
      case True
      with p v lt sk obtain ws where "parse_elems r' = Some (ws, r)"
        by (subst (asm) parse_elems.simps) (auto simp: cons_result_Some)
      with "2.IH"(2) [OF v refl lt sk True] have "length r < length r'"
        by auto
      with r' lt show ?thesis by simp
    next
      case False
      with p v lt sk have "r = r'"
        by (subst (asm) parse_elems.simps) (auto split: if_splits)
      with r' lt show ?thesis by simp
    qed
  qed
next
  case (3 s)
  show ?case
  proof (intro allI impI)
    fix ms r
    assume p: "parse_members s = Some (ms, r)"
    then obtain q r0 where sk: "skip_ws s = q # r0"
      by (subst (asm) parse_members.simps) (auto split: list.splits)
    with p have q: "\<not> q \<noteq> 0x22"
      by (subst (asm) parse_members.simps) (auto split: if_splits)
    with p sk obtain k r1 where k: "parse_chars r0 = Some (k, r1)"
      by (subst (asm) parse_members.simps) (auto split: option.splits)
    with p sk q obtain c r2 where sk1: "skip_ws r1 = c # r2"
      by (subst (asm) parse_members.simps) (auto split: list.splits)
    with p sk q k have c: "\<not> c \<noteq> 0x3A"
      by (subst (asm) parse_members.simps) (auto split: if_splits)
    with p sk q k sk1 obtain v r3 where v: "parse_value r2 = Some (v, r3)"
      by (subst (asm) parse_members.simps) (auto split: option.splits)
    with p sk q k sk1 c have lt: "\<not> length r2 \<le> length r3"
      by (subst (asm) parse_members.simps) (auto split: if_splits)
    with p sk q k sk1 c v obtain d r4 where sk3: "skip_ws r3 = d # r4"
      by (subst (asm) parse_members.simps) (auto split: list.splits)
    have chain: "length r4 < length r3" "length r2 < length r1" "length r1 < length r0"
      "length r0 < length s"
      using skip_ws_Cons_length [OF sk3] skip_ws_Cons_length [OF sk1] parse_chars_shorter [OF k]
        skip_ws_Cons_length [OF sk] by simp_all
    show "length r < length s"
    proof (cases "d = 0x2C")
      case True
      with p sk q k sk1 c v lt sk3 obtain ns where "parse_members r4 = Some (ns, r)"
        by (subst (asm) parse_members.simps) (auto simp: cons_result_Some)
      with "3.IH"(2) [OF sk q k refl sk1 c v refl lt sk3 True]
      have "length r < length r4" by auto
      with chain lt show ?thesis by simp
    next
      case False
      with p sk q k sk1 c v lt sk3 have "r = r4"
        by (subst (asm) parse_members.simps) (auto split: if_splits)
      with chain lt show ?thesis by simp
    qed
  qed
qed

text \<open>Hence the comparisons of lengths in the parser never fail.\<close>

lemma parse_elems_unguarded:
  "parse_elems s =
     (case parse_value s of
        None \<Rightarrow> None
      | Some (v, r) \<Rightarrow>
          (case skip_ws r of
             [] \<Rightarrow> None
           | c # r' \<Rightarrow>
               if c = 0x2C then cons_result v (parse_elems r')
               else if c = 0x5D then Some ([v], r')
               else None))"
proof (cases "parse_value s")
  case None
  then show ?thesis by (subst parse_elems.simps) simp
next
  case (Some a)
  obtain v r where a: "a = (v, r)" by (cases a)
  with Some parse_shorter(1) [of s] have "\<not> length s \<le> length r" by auto
  with Some a show ?thesis by (subst parse_elems.simps) simp
qed

lemma parse_members_unguarded:
  "parse_members s =
     (case skip_ws s of
        [] \<Rightarrow> None
      | q # r \<Rightarrow>
          if q \<noteq> 0x22 then None
          else
            (case parse_chars r of
               None \<Rightarrow> None
             | Some (k, r1) \<Rightarrow>
                 (case skip_ws r1 of
                    [] \<Rightarrow> None
                  | c # r2 \<Rightarrow>
                      if c \<noteq> 0x3A then None
                      else
                        (case parse_value r2 of
                           None \<Rightarrow> None
                         | Some (v, r3) \<Rightarrow>
                             (case skip_ws r3 of
                                [] \<Rightarrow> None
                              | d # r4 \<Rightarrow>
                                  if d = 0x2C then cons_result (k, v) (parse_members r4)
                                  else if d = 0x7D then Some ([(k, v)], r4)
                                  else None)))))"
proof -
  have progress: "\<And>r2 v r3. parse_value r2 = Some (v, r3) \<Longrightarrow> \<not> length r2 \<le> length r3"
    using parse_shorter(1) by (simp add: not_le)
  show ?thesis
    by (subst parse_members.simps)
       (simp add: progress split: list.splits option.splits prod.splits)
qed

section \<open>Writing a collection and reading it back\<close>

subsection \<open>String literals\<close>

lemma hex_digits_table: "list_all (\<lambda>n. hex_val (hex_digit n) = Some n) [0..<16]"
  by code_simp

lemma hex_val_hex_digit: "n < 16 \<Longrightarrow> hex_val (hex_digit n) = Some n"
  using hex_digits_table by (simp add: list_all_iff)

lemma nibbles_sum:
  "((n div 4096 * 16 + n div 256 mod 16) * 16 + n div 16 mod 16) * 16 + n mod 16 = (n::nat)"
proof -
  have a: "n div 4096 = n div 256 div 16" by (simp add: div_mult2_eq)
  have b: "n div 256 = n div 16 div 16" by (simp add: div_mult2_eq)
  have "n div 4096 * 16 + n div 256 mod 16 = n div 256"
    unfolding a by (rule div_mult_mod_eq)
  moreover have "n div 256 * 16 + n div 16 mod 16 = n div 16"
    unfolding b by (rule div_mult_mod_eq)
  moreover have "n div 16 * 16 + n mod 16 = n"
    by (rule div_mult_mod_eq)
  ultimately show ?thesis by simp
qed

lemma hex4_unicode_escape:
  "hex4 (hex_digit (unat c div 4096)) (hex_digit (unat c div 256 mod 16))
        (hex_digit (unat c div 16 mod 16)) (hex_digit (unat c mod 16)) = Some (c :: 16 word)"
proof -
  have "unat c < 65536" using unsigned_less [of c, where 'a = nat] by simp
  then have "unat c div 4096 < 16" by simp
  then have 1: "hex_val (hex_digit (unat c div 4096)) = Some (unat c div 4096)"
    by (rule hex_val_hex_digit)
  have 2: "hex_val (hex_digit (unat c div 256 mod 16)) = Some (unat c div 256 mod 16)"
    by (rule hex_val_hex_digit) simp
  have 3: "hex_val (hex_digit (unat c div 16 mod 16)) = Some (unat c div 16 mod 16)"
    by (rule hex_val_hex_digit) simp
  have 4: "hex_val (hex_digit (unat c mod 16)) = Some (unat c mod 16)"
    by (rule hex_val_hex_digit) simp
  have "hex4 (hex_digit (unat c div 4096)) (hex_digit (unat c div 256 mod 16))
          (hex_digit (unat c div 16 mod 16)) (hex_digit (unat c mod 16))
        = Some (of_nat (unat c))"
    unfolding hex4_def 1 2 3 4 by (simp only: prod.case option.case nibbles_sum)
  then show ?thesis by simp
qed

lemma surrogate_plain:
  assumes "is_high_surrogate c \<or> is_low_surrogate c"
  shows "c \<noteq> 0x22" and "c \<noteq> 0x5C" and "\<not> c < 0x20"
  using assms
  by (auto simp: is_high_surrogate_def is_low_surrogate_def word_le_nat_alt word_less_nat_alt)

lemma parse_chars_quote_unit:
  "parse_chars (quote_unit c @ tail) = cons_result c (parse_chars tail)"
proof -
  have esc: "parse_chars (unicode_escape c @ tail) = cons_result c (parse_chars tail)"
    by (simp add: unicode_escape_def Let_def hex4_unicode_escape)
  show ?thesis
    unfolding quote_unit_def using esc by (simp add: unescape_def)
qed

lemma parse_chars_pair:
  "is_high_surrogate c \<Longrightarrow> is_low_surrogate d \<Longrightarrow>
   parse_chars (c # d # tail) = cons_result c (cons_result d (parse_chars tail))"
  using surrogate_plain [of c] surrogate_plain [of d] by simp

lemma parse_chars_quote_chars:
  "parse_chars (quote_chars s @ 0x22 # rest) = Some (s, rest)"
proof (induction s rule: quote_chars.induct)
  case 1
  show ?case by simp
next
  case (2 c)
  show ?case by (simp add: parse_chars_quote_unit cons_result_def)
next
  case (3 c d cs)
  show ?case
  proof (cases "is_high_surrogate c \<and> is_low_surrogate d")
    case True
    then have "quote_chars (c # d # cs) = c # d # quote_chars cs" by simp
    with True "3.IH"(1) show ?thesis
      by (simp add: parse_chars_pair cons_result_def del: parse_chars.simps)
  next
    case False
    then have "quote_chars (c # d # cs) = quote_unit c @ quote_chars (d # cs)" by auto
    with False "3.IH"(2) show ?thesis
      by (simp add: parse_chars_quote_unit cons_result_def del: parse_chars.simps quote_chars.simps)
  qed
qed


subsection \<open>Numbers\<close>

lemma digit_chars_table:
  "list_all (\<lambda>d. is_digit (digit_char d) \<and> unat (digit_char d) - 48 = d \<and>
                  digit_char d \<noteq> 0x2D \<and> (digit_char d = 0x30 \<longleftrightarrow> d = 0)) [0..<10]"
  by code_simp

lemma digit_char_props:
  assumes "d < 10"
  shows "is_digit (digit_char d)" and "unat (digit_char d) - 48 = d"
    and "digit_char d \<noteq> 0x2D" and "digit_char d = 0x30 \<longleftrightarrow> d = 0"
  using digit_chars_table assms by (simp_all add: list_all_iff)

lemma dec_digits_not_Nil: "dec_digits n \<noteq> []"
  by (subst dec_digits.simps) simp

lemma dec_digits_digits: "c \<in> set (dec_digits n) \<Longrightarrow> is_digit c"
proof (induction n arbitrary: c rule: dec_digits.induct)
  case (1 n)
  show ?case
  proof (cases "n < 10")
    case True
    with "1.prems" show ?thesis
      by (subst (asm) dec_digits.simps) (simp add: digit_char_props)
  next
    case False
    with "1.prems" have "c \<in> set (dec_digits (n div 10)) \<or> c = digit_char (n mod 10)"
      by (subst (asm) dec_digits.simps) auto
    with "1.IH" [OF False] show ?thesis
      by (auto simp: digit_char_props)
  qed
qed

lemma dec_value_Nil: "dec_value [] = 0"
  by (simp add: dec_value_def)

lemma dec_value_snoc: "dec_value (ds @ [c]) = dec_value ds * 10 + (unat c - 48)"
  by (simp add: dec_value_def)

lemma dec_value_dec_digits: "dec_value (dec_digits n) = n"
proof (induction n rule: dec_digits.induct)
  case (1 n)
  show ?case
  proof (cases "n < 10")
    case True
    then show ?thesis
      by (subst dec_digits.simps) (simp add: dec_value_def digit_char_props)
  next
    case False
    with "1.IH" have "dec_value (dec_digits (n div 10)) = n div 10" by simp
    with False show ?thesis
      by (subst dec_digits.simps) (simp add: dec_value_snoc digit_char_props)
  qed
qed

lemma hd_dec_digits_zero: "hd (dec_digits n) = 0x30 \<longleftrightarrow> n = 0"
proof (induction n rule: dec_digits.induct)
  case (1 n)
  show ?case
  proof (cases "n < 10")
    case True
    then show ?thesis
      by (subst dec_digits.simps) (simp add: digit_char_props)
  next
    case False
    then have "n div 10 \<noteq> 0" by simp
    with "1.IH" [OF False] have "hd (dec_digits (n div 10)) \<noteq> 0x30" by simp
    with False show ?thesis
      by (subst dec_digits.simps) (simp add: dec_digits_not_Nil)
  qed
qed

lemma dec_digits_no_leading_zero:
  "1 < length (dec_digits n) \<Longrightarrow> hd (dec_digits n) \<noteq> 0x30"
proof
  assume len: "1 < length (dec_digits n)" and "hd (dec_digits n) = 0x30"
  then have "n = 0" by (simp add: hd_dec_digits_zero)
  then have "dec_digits n = [digit_char 0]" by (subst dec_digits.simps) simp
  with len show False by simp
qed

lemma parse_number_digits:
  assumes ne: "ds \<noteq> []" and digits: "\<forall>c\<in>set ds. is_digit c"
    and lead: "1 < length ds \<longrightarrow> hd ds \<noteq> 0x30"
  shows "parse_number (ds @ 0x2C # r) = Some (of_nat (dec_value ds), 0x2C # r)"
    and "parse_number (0x2D # ds @ 0x2C # r) = Some (- of_nat (dec_value ds), 0x2C # r)"
proof -
  from ne obtain d ds' where ds: "ds = d # ds'" by (cases ds) auto
  with digits have d: "is_digit d" by simp
  then have dm: "d \<noteq> 0x2D" by (auto simp: is_digit_def)
  have nd: "\<not> is_digit 0x2C" by (simp add: is_digit_def)
  have tw: "takeWhile is_digit (ds @ 0x2C # r) = ds"
    using digits nd by (simp add: takeWhile_append2)
  have dw: "dropWhile is_digit (ds @ 0x2C # r) = 0x2C # r"
    using digits nd by (simp add: dropWhile_append2)
  have pd: "parse_digits (ds @ 0x2C # r) = Some (ds, 0x2C # r)"
    using ne by (simp add: parse_digits_def tw dw)
  have pf: "parse_fraction (0x2C # r) = Some ([], 0x2C # r)"
    by (simp add: parse_fraction_def)
  have pe: "parse_exponent (0x2C # r) = Some (0, 0x2C # r)"
    by (simp add: parse_exponent_def)
  have pos: "(case ds @ 0x2C # r of [] \<Rightarrow> False | c # x \<Rightarrow> c = 0x2D) = False"
    using dm by (simp add: ds)
  show "parse_number (ds @ 0x2C # r) = Some (of_nat (dec_value ds), 0x2C # r)"
    unfolding parse_number_def pos using lead by (simp add: pd pf pe)
  show "parse_number (0x2D # ds @ 0x2C # r) = Some (- of_nat (dec_value ds), 0x2C # r)"
    unfolding parse_number_def using lead by (simp add: pd pf pe)
qed

lemma parse_number_to_string:
  "parse_number (number_to_string i @ 0x2C # r) = Some (of_int i, 0x2C # r)"
proof (cases "i < 0")
  case True
  then have "of_int i = - (of_nat (nat (- i)) :: rat)" by simp
  with True show ?thesis
    using parse_number_digits(2) [of "dec_digits (nat (- i))" r]
    by (simp add: number_to_string_def dec_digits_not_Nil dec_digits_digits
        dec_digits_no_leading_zero dec_value_dec_digits del: of_nat_nat)
next
  case False
  then have "of_int i = (of_nat (nat i) :: rat)" by simp
  with False show ?thesis
    using parse_number_digits(1) [of "dec_digits (nat i)" r]
    by (simp add: number_to_string_def dec_digits_not_Nil dec_digits_digits
        dec_digits_no_leading_zero dec_value_dec_digits del: of_nat_nat)
qed

subsection \<open>Values, objects and arrays\<close>

lemma skip_ws_append:
  "\<forall>c\<in>set w. is_json_ws c \<Longrightarrow> skip_ws (w @ s) = skip_ws s"
  by (simp add: skip_ws_def dropWhile_append2)

lemma skip_ws_Cons_id: "\<not> is_json_ws c \<Longrightarrow> skip_ws (c # s) = c # s"
  by (simp add: skip_ws_def)

lemma parse_value_ws:
  "\<forall>c\<in>set w. is_json_ws c \<Longrightarrow> parse_value (w @ s) = parse_value s"
  by (simp add: parse_value.simps [of "w @ s"] parse_value.simps [of s] skip_ws_append)

lemma parse_value_string:
  "parse_value (QuoteJSONString t @ rest) = Some (JStr t, rest)"
  by (subst parse_value.simps)
     (simp add: QuoteJSONString_def skip_ws_Cons_id is_json_ws_def parse_chars_quote_chars
        del: parse_chars.simps)

lemma js_true: "js ''true'' = [0x74, 0x72, 0x75, 0x65]" by (simp add: js_def)
lemma js_false: "js ''false'' = [0x66, 0x61, 0x6C, 0x73, 0x65]" by (simp add: js_def)
lemma js_null: "js ''null'' = [0x6E, 0x75, 0x6C, 0x6C]" by (simp add: js_def)

lemma parse_value_bool:
  "parse_value ((if b then js ''true'' else js ''false'') @ rest) = Some (JBool b, rest)"
  by (subst parse_value.simps)
     (simp add: js_true js_false js_null skip_ws_Cons_id is_json_ws_def)


lemma parse_value_space: "parse_value (0x20 # s) = parse_value s"
  using parse_value_ws [of "[0x20]" s] by (simp add: is_json_ws_def)

lemma number_to_string_Cons:
  "\<exists>c cs. number_to_string i = c # cs \<and> (c = 0x2D \<or> is_digit c)"
proof (cases "i < 0")
  case True
  then show ?thesis by (simp add: number_to_string_def)
next
  case False
  obtain c cs where ds: "dec_digits (nat i) = c # cs"
    using dec_digits_not_Nil [of "nat i"] by (cases "dec_digits (nat i)") auto
  then have "is_digit c" using dec_digits_digits [of c "nat i"] by simp
  with False ds show ?thesis by (simp add: number_to_string_def)
qed

lemma parse_value_number:
  "parse_value (number_to_string i @ 0x2C # r) = Some (JNum (of_int i), 0x2C # r)"
proof -
  obtain c cs where n: "number_to_string i = c # cs" and c: "c = 0x2D \<or> is_digit c"
    using number_to_string_Cons by blast
  have p: "parse_number (c # cs @ 0x2C # r) = Some (of_int i, 0x2C # r)"
    using parse_number_to_string [of i r] by (simp add: n)
  from c have "\<not> is_json_ws c" "c \<noteq> 0x22" "c \<noteq> 0x5B" "c \<noteq> 0x7B" "c \<noteq> 0x74" "c \<noteq> 0x66"
    "c \<noteq> 0x6E"
    by (auto simp: is_digit_def is_json_ws_def)
  then show ?thesis
    by (simp add: n parse_value.simps [of "c # cs @ 0x2C # r"] skip_ws_Cons_id
        js_true js_false js_null p)
qed

lemma skip_ws_quote: "skip_ws (QuoteJSONString k @ s) = QuoteJSONString k @ s"
  by (simp add: QuoteJSONString_def skip_ws_Cons_id is_json_ws_def)

lemma parse_members_step:
  assumes ws: "\<forall>c\<in>set w. is_json_ws c"
    and val: "parse_value (vt @ 0x2C # r) = Some (v, 0x2C # r)" and vt: "vt \<noteq> []"
  shows "parse_members (w @ QuoteJSONString k @ 0x3A # vt @ 0x2C # r)
         = cons_result (k, v) (parse_members r)"
proof -
  have 1: "skip_ws (w @ QuoteJSONString k @ 0x3A # vt @ 0x2C # r)
           = 0x22 # quote_chars k @ 0x22 # 0x3A # vt @ 0x2C # r"
    using ws by (simp add: skip_ws_append skip_ws_quote) (simp add: QuoteJSONString_def)
  have 2: "skip_ws (0x3A # vt @ 0x2C # r) = 0x3A # vt @ 0x2C # r"
    by (simp add: skip_ws_Cons_id is_json_ws_def)
  have 3: "skip_ws (0x2C # r) = 0x2C # r"
    by (simp add: skip_ws_Cons_id is_json_ws_def)
  show ?thesis
    by (subst parse_members.simps) (simp add: 1 2 3 parse_chars_quote_chars val vt)
qed

lemma parse_members_last:
  assumes ws: "\<forall>c\<in>set w. is_json_ws c" and ws2: "\<forall>c\<in>set w2. is_json_ws c"
    and val: "parse_value (vt @ w2 @ 0x7D # r) = Some (v, w2 @ 0x7D # r)" and vt: "vt \<noteq> []"
  shows "parse_members (w @ QuoteJSONString k @ 0x3A # vt @ w2 @ 0x7D # r) = Some ([(k, v)], r)"
proof -
  have 1: "skip_ws (w @ QuoteJSONString k @ 0x3A # vt @ w2 @ 0x7D # r)
           = 0x22 # quote_chars k @ 0x22 # 0x3A # vt @ w2 @ 0x7D # r"
    using ws by (simp add: skip_ws_append skip_ws_quote) (simp add: QuoteJSONString_def)
  have 2: "skip_ws (0x3A # vt @ w2 @ 0x7D # r) = 0x3A # vt @ w2 @ 0x7D # r"
    by (simp add: skip_ws_Cons_id is_json_ws_def)
  have 3: "skip_ws (w2 @ 0x7D # r) = 0x7D # r"
    using ws2 by (simp add: skip_ws_append skip_ws_Cons_id is_json_ws_def)
  show ?thesis
    by (subst parse_members.simps) (simp add: 1 2 3 parse_chars_quote_chars val vt)
qed


lemma parse_value_true: "parse_value (js ''true'' @ rest) = Some (JBool True, rest)"
  using parse_value_bool [of True rest] by simp

lemma parse_value_false: "parse_value (js ''false'' @ rest) = Some (JBool False, rest)"
  using parse_value_bool [of False rest] by simp

lemma js_literals:
  "js ''{'' = [0x7B]" "js ''    '' = [0x20, 0x20, 0x20, 0x20]" "js '': '' = [0x3A, 0x20]"
  "js '','' = [0x2C]" "js ''  }'' = [0x20, 0x20, 0x7D]" "js ''  '' = [0x20, 0x20]"
  "js ''['' = [0x5B]" "js '']'' = [0x5D]" "js ''[]'' = [0x5B, 0x5D]"
  by (simp_all add: js_def)

lemma parse_value_todo: "parse_value (stringify_todo t @ rest) = Some (todo_json t, rest)"
proof -
  define ind :: jsstring where "ind = [0x0A, 0x20, 0x20, 0x20, 0x20]"
  define m4 where "m4 = ind @ QuoteJSONString (js ''createTime'') @
    0x3A # (0x20 # QuoteJSONString (createTime t)) @ [0x0A, 0x20, 0x20] @ 0x7D # rest"
  define m3 where "m3 = ind @ QuoteJSONString (js ''completed'') @
    0x3A # (0x20 # (if completed t then js ''true'' else js ''false'')) @ 0x2C # m4"
  define m2 where "m2 = ind @ QuoteJSONString (js ''title'') @
    0x3A # (0x20 # QuoteJSONString (title t)) @ 0x2C # m3"
  define m1 where "m1 = ind @ QuoteJSONString (js ''id'') @
    0x3A # (0x20 # number_to_string (id' t)) @ 0x2C # m2"
  have ws: "\<forall>c\<in>set ind. is_json_ws c"
    by (simp add: ind_def is_json_ws_def)
  have shape: "stringify_todo t @ rest = 0x7B # m1"
    by (simp add: stringify_todo_def m1_def m2_def m3_def m4_def ind_def js_literals)
  have p4: "parse_members m4 = Some ([(js ''createTime'', JStr (createTime t))], rest)"
    unfolding m4_def
    by (rule parse_members_last [OF ws])
       (simp_all add: is_json_ws_def parse_value_space parse_value_string)
  have p3: "parse_members m3
            = cons_result (js ''completed'', JBool (completed t)) (parse_members m4)"
    unfolding m3_def
    by (rule parse_members_step [OF ws])
       (simp_all add: parse_value_space parse_value_true parse_value_false)
  have p2: "parse_members m2 = cons_result (js ''title'', JStr (title t)) (parse_members m3)"
    unfolding m2_def
    by (rule parse_members_step [OF ws]) (simp_all add: parse_value_space parse_value_string)
  have p1: "parse_members m1
            = cons_result (js ''id'', JNum (of_int (id' t))) (parse_members m2)"
    unfolding m1_def
    by (rule parse_members_step [OF ws]) (simp_all add: parse_value_space parse_value_number)
  have members: "parse_members m1 =
      Some ([(js ''id'', JNum (of_int (id' t))), (js ''title'', JStr (title t)),
             (js ''completed'', JBool (completed t)),
             (js ''createTime'', JStr (createTime t))], rest)"
    by (simp add: p1 p2 p3 p4 cons_result_def)
  have "skip_ws m1 = QuoteJSONString (js ''id'') @
      0x3A # (0x20 # number_to_string (id' t)) @ 0x2C # m2"
    unfolding m1_def using ws by (simp add: skip_ws_append skip_ws_quote)
  then obtain x where sk: "skip_ws m1 = 0x22 # x"
    by (simp add: QuoteJSONString_def)
  show ?thesis
    by (simp add: shape parse_value.simps [of "0x7B # m1"] skip_ws_Cons_id is_json_ws_def sk
        members todo_json_def)
qed

lemma parse_elems_todos:
  assumes ws: "\<forall>c\<in>set w. is_json_ws c"
  shows "parse_elems (w @ join_elements (map stringify_todo (t # ts)) @ 0x0A # 0x5D # rest)
         = Some (map todo_json (t # ts), rest)"
  using ws
proof (induction ts arbitrary: t w)
  case Nil
  have v: "parse_value (w @ stringify_todo t @ 0x0A # 0x5D # rest)
           = Some (todo_json t, 0x0A # 0x5D # rest)"
    using Nil by (simp add: parse_value_ws parse_value_todo)
  have ne: "stringify_todo t \<noteq> []"
    by (simp add: stringify_todo_def js_literals)
  have sk: "skip_ws (0x0A # 0x5D # rest) = 0x5D # rest"
    by (simp add: skip_ws_def is_json_ws_def)
  show ?case
    by (subst parse_elems.simps) (simp add: v ne sk)
next
  case (Cons u us)
  define r where "r = [0x0A, 0x20, 0x20] @ join_elements (map stringify_todo (u # us))
    @ 0x0A # 0x5D # rest"
  have shape: "w @ join_elements (map stringify_todo (t # u # us)) @ 0x0A # 0x5D # rest
              = w @ stringify_todo t @ 0x2C # r"
    by (simp add: r_def js_literals)
  have v: "parse_value (w @ stringify_todo t @ 0x2C # r) = Some (todo_json t, 0x2C # r)"
    using Cons.prems by (simp add: parse_value_ws parse_value_todo)
  have ne: "stringify_todo t \<noteq> []"
    by (simp add: stringify_todo_def js_literals)
  have sk: "skip_ws (0x2C # r) = 0x2C # r"
    by (simp add: skip_ws_def is_json_ws_def)
  have rest: "parse_elems r = Some (map todo_json (u # us), rest)"
    unfolding r_def by (rule Cons.IH) (simp add: is_json_ws_def)
  show ?case
    unfolding shape
    by (subst parse_elems.simps) (simp add: v ne sk rest cons_result_def)
qed

lemma JSON_parse_empty: "JSON_parse (js ''[]'') = Some (JArr [])"
  by (simp add: JSON_parse_def js_literals parse_value.simps [of "[0x5B, 0x5D]"]
      skip_ws_def is_json_ws_def)

lemma JSON_parse_stringify: "JSON_parse (JSON_stringify todos) = Some (JArr (map todo_json todos))"
proof (cases todos)
  case Nil
  then show ?thesis by (simp add: JSON_stringify_def JSON_parse_empty)
next
  case (Cons t ts)
  define r where "r = [0x0A, 0x20, 0x20] @ join_elements (map stringify_todo (t # ts))
    @ 0x0A # 0x5D # []"
  have shape: "JSON_stringify (t # ts) = 0x5B # r"
    by (simp add: JSON_stringify_def r_def js_literals)
  have elems: "parse_elems r = Some (map todo_json (t # ts), [])"
    unfolding r_def by (rule parse_elems_todos) (simp add: is_json_ws_def)
  have "\<exists>y. join_elements (map stringify_todo (t # ts)) = 0x7B # y"
    by (cases ts) (simp_all add: stringify_todo_def js_literals)
  then obtain y where "join_elements (map stringify_todo (t # ts)) = 0x7B # y" ..
  then have sk: "skip_ws r = 0x7B # y @ [0x0A, 0x5D]"
    by (simp add: r_def skip_ws_def is_json_ws_def)
  show ?thesis
    by (simp add: Cons JSON_parse_def shape parse_value.simps [of "0x5B # r"] skip_ws_Cons_id
        is_json_ws_def sk elems)
       (simp add: skip_ws_def)
qed

lemma as_todo_todo_json: "as_todo (todo_json t) = Some t"
  by (simp add: as_todo_def todo_json_def as_int_def as_string_def as_bool_def)

lemma as_todos_todo_json: "as_todos (JArr (map todo_json todos)) = Some todos"
  by (induction todos) (simp_all add: as_todos_def as_todo_todo_json)

section \<open>Properties of the store\<close>

lemma writeTodosToFile_ok:
  "write_fault d = None \<Longrightarrow>
   writeTodosToFile todos d = (Returns (), d\<lparr>backing := Text (JSON_stringify todos)\<rparr>)"
  by (simp add: writeTodosToFile_def fs_writeFile_def)

lemma writeTodosToFile_fault:
  "write_fault d = Some code \<Longrightarrow>
   writeTodosToFile todos d = (Throws (WriteFailed (IOError code)), d)"
  by (simp add: writeTodosToFile_def fs_writeFile_def)

lemma read_stringified:
  "backing d = Text (JSON_stringify todos) \<Longrightarrow> readTodosFromFile d = (Returns todos, d)"
  by (simp add: readTodosFromFile_def fs_readFile_def JSON_parse_stringify as_todos_todo_json)

lemma JSON_stringify_Nil: "JSON_stringify [] = js ''[]''"
  by (simp add: JSON_stringify_def)

lemma read_cases:
  assumes "readTodosFromFile d = (Returns todos, d1)"
  shows "(d1 = d \<and> (\<exists>fileContent. backing d = Text fileContent)) \<or>
         (todos = [] \<and> d1 = d\<lparr>backing := Text (JSON_stringify [])\<rparr> \<and> write_fault d = None \<and>
          (\<forall>fileContent. backing d \<noteq> Text fileContent))"
proof (cases "backing d")
  case Missing
  with assms show ?thesis
    by (cases "write_fault d")
       (auto simp: readTodosFromFile_def fs_readFile_def await_def return_def
          writeTodosToFile_ok writeTodosToFile_fault)
next
  case (Text fileContent)
  with assms show ?thesis
    by (auto simp: readTodosFromFile_def fs_readFile_def split: option.splits)
next
  case (Unreadable code)
  with assms show ?thesis
    by (cases "write_fault d")
       (auto simp: readTodosFromFile_def fs_readFile_def await_def return_def
          writeTodosToFile_ok writeTodosToFile_fault split: if_splits)
qed

lemma read_again:
  assumes "readTodosFromFile d = (Returns todos, d1)"
  shows "readTodosFromFile d1 = (Returns todos, d1)"
  using read_cases [OF assms] assms by (auto simp: read_stringified)

lemma read_write_fault:
  assumes "readTodosFromFile d = (Returns todos, d1)"
  shows "write_fault d1 = write_fault d"
  using read_cases [OF assms] by auto

lemma stored_Some:
  "stored d = Some todos \<longleftrightarrow> (\<exists>d1. readTodosFromFile d = (Returns todos, d1))"
  by (cases "readTodosFromFile d") (auto simp: stored_def split: outcome.splits)

lemma stored_written:
  "stored (d\<lparr>backing := Text (JSON_stringify todos)\<rparr>) = Some todos"
  by (simp add: stored_Some read_stringified)

lemma stored_text: "backing d = Text (JSON_stringify todos) \<Longrightarrow> stored d = Some todos"
  by (simp add: stored_Some read_stringified)

lemma ulp_small: "n < 2 ^ 53 \<Longrightarrow> ulp n = 1"
  by (subst ulp.simps) simp

lemma round_magnitude_exact: "n \<le> 2 ^ 53 \<Longrightarrow> round_magnitude n = n"
proof (cases "n < 2 ^ 53")
  case True
  then show ?thesis by (simp add: round_magnitude_def ulp_small)
next
  case False
  assume "n \<le> 2 ^ 53"
  with False have n: "n = 2 ^ 53" by simp
  have "ulp (2 ^ 53) = 2"
    by (subst ulp.simps) (simp add: ulp_small)
  with n show ?thesis by (simp add: round_magnitude_def)
qed

lemma to_double_exact: "\<bar>i\<bar> \<le> 2 ^ 53 \<Longrightarrow> to_double i = i"
  by (auto simp: to_double_def round_magnitude_exact)

lemma to_double_tie: "to_double (9007199254740992 + 1) = 9007199254740992"
  by code_simp

lemma js_number_exact:
  assumes "\<bar>i\<bar> \<le> 2 ^ 53"
  shows "js_number i = Num i"
proof -
  have "(2::int) ^ 53 < 2 ^ 1024"
    by (rule power_strict_increasing) simp_all
  with assms have "\<not> 2 ^ 1024 \<le> i" and "\<not> i \<le> - (2 ^ 1024)"
    by linarith+
  then show ?thesis
    using assms by (simp only: js_number_def to_double_exact Let_def if_False)
qed

lemma generateUniqueId_stored:
  assumes "readTodosFromFile d = (Returns todos, d)"
  shows "generateUniqueId max_arguments d =
         (if todos = [] then Returns 1
          else if max_arguments < length todos then Throws RangeError
          else Returns (to_double (Max (set (map id' todos)) + 1)), d)"
proof (cases todos)
  case Nil
  with assms show ?thesis by (simp add: generateUniqueId_def await_def return_def)
next
  case (Cons t ts)
  have "fold max (map id' ts) (id' t) = Max (set (map id' (t # ts)))"
    unfolding list.map by (rule Max.set_eq_fold [symmetric])
  with assms Cons show ?thesis
    by (simp add: generateUniqueId_def await_def return_def throw_def Let_def)
qed

text \<open>Below \<open>2^53\<close> the sum is exact.\<close>

lemma next_id_exact:
  assumes "\<forall>t\<in>set todos. \<bar>id' t\<bar> < 2 ^ 53" and "todos \<noteq> []"
  shows "to_double (Max (set (map id' todos)) + 1) = Max (set (map id' todos)) + 1"
proof -
  have "Max (set (map id' todos)) \<in> set (map id' todos)"
    using assms(2) by (intro Max_in) simp_all
  then obtain t where "t \<in> set todos" and "Max (set (map id' todos)) = id' t"
    by auto
  with assms(1) have "\<bar>Max (set (map id' todos)) + 1\<bar> \<le> 2 ^ 53"
    by force
  then show ?thesis by (rule to_double_exact)
qed

lemma truthy_default:
  "truthy (case c of None \<Rightarrow> Some (JBool False) | Some v \<Rightarrow> Some v) = truthy c"
  by (cases c) simp_all

lemma trim_blank: "trim (js '' '') = []"
  by (simp add: trim_def js_def is_space_def)

section \<open>The handlers on a stored collection\<close>

lemma findIndex_None: "findIndex P xs = None \<longleftrightarrow> (\<forall>x\<in>set xs. \<not> P x)"
  by (induction xs) auto


lemma find_None_id: "find P xs = None \<longleftrightarrow> (\<forall>x\<in>set xs. \<not> P x)"
  by (auto simp: find_None_iff)


lemma get_todo_stored:
  assumes "readTodosFromFile d = (Returns todos, d1)"
  shows "get_todo p d =
     (case find (\<lambda>item. Num (id' item) = parseInt p) todos of
        None \<Rightarrow> (Returns \<lparr>status = 404, json = Failure (Get_not_found (parseInt p))\<rparr>, d1)
      | Some todo \<Rightarrow> (Returns \<lparr>status = 200, json = Success_todo todo\<rparr>, d1))"
  using assms
  by (simp add: get_todo_def catch_def await_def return_def Let_def split: option.splits)

lemma put_todo_stored:
  assumes "readTodosFromFile d = (Returns todos, d1)"
  shows "put_todo p body d =
     (case findIndex (\<lambda>item. Num (id' item) = parseInt p) todos of
        None \<Rightarrow> (Returns \<lparr>status = 404, json = Failure (Put_not_found (parseInt p))\<rparr>, d1)
      | Some i \<Rightarrow>
          if truthy (body_title body) \<and> \<not> is_string (body_title body)
          then (Returns \<lparr>status = 500, json = Failure (Error_message TypeError)\<rparr>, d1)
          else
            (case write_fault d1 of
               Some code \<Rightarrow>
                 (Returns \<lparr>status = 500,
                    json = Failure (Error_message (WriteFailed (IOError code)))\<rparr>, d1)
             | None \<Rightarrow>
                 (Returns \<lparr>status = 200,
                    json = Success_change Updated (shallow_merge body (todos ! i))\<rparr>,
                  d1\<lparr>backing := Text (JSON_stringify
                        (todos[i := shallow_merge body (todos ! i)]))\<rparr>)))"
proof (cases "findIndex (\<lambda>item. Num (id' item) = parseInt p) todos")
  case None
  with assms show ?thesis
    by (simp add: put_todo_def catch_def await_def return_def Let_def)
next
  case (Some i)
  show ?thesis
  proof (cases "body_title body")
    case None
    with assms Some show ?thesis
      by (cases "write_fault d1"; cases "body_completed body")
         (simp_all add: put_todo_def catch_def await_def return_def Let_def is_string_def
            shallow_merge_def writeTodosToFile_ok writeTodosToFile_fault)
  next
    case (Some v)
    with assms \<open>findIndex _ todos = Some i\<close> show ?thesis
      by (cases "write_fault d1"; cases "body_completed body"; cases v)
         (simp_all add: put_todo_def catch_def await_def return_def throw_def Let_def
            is_string_def call_trim_def shallow_merge_def writeTodosToFile_ok
            writeTodosToFile_fault)
  qed
qed

lemma delete_todo_stored:
  assumes "readTodosFromFile d = (Returns todos, d1)"
  shows "delete_todo p d =
     (case findIndex (\<lambda>item. Num (id' item) = parseInt p) todos of
        None \<Rightarrow> (Returns \<lparr>status = 404, json = Failure (Delete_not_found (parseInt p))\<rparr>, d1)
      | Some i \<Rightarrow>
          (case write_fault d1 of
             Some code \<Rightarrow>
               (Returns \<lparr>status = 500,
                  json = Failure (Error_message (WriteFailed (IOError code)))\<rparr>, d1)
           | None \<Rightarrow>
               (Returns \<lparr>status = 200,
                  json = Success_delete (Deleted (parseInt p)) (parseInt p)\<rparr>,
                d1\<lparr>backing := Text (JSON_stringify (splice1 i todos))\<rparr>)))"
  using assms
  by (cases "write_fault d1")
     (simp_all add: delete_todo_def catch_def await_def return_def Let_def
        writeTodosToFile_ok writeTodosToFile_fault split: option.splits)

lemma post_todo_stored:
  assumes "readTodosFromFile d = (Returns todos, d1)"
    and "body_title body = Some (JStr s)" and "s \<noteq> []"
  shows "post_todo max_arguments now body d =
     (if max_arguments < length todos
      then (Returns \<lparr>status = 500, json = Failure (Error_message RangeError)\<rparr>, d1)
      else
        (let newTodo =
               \<lparr>id' = (if todos = [] then 1 else to_double (Max (set (map id' todos)) + 1)),
                  title = trim s, completed = truthy (body_completed body),
                  createTime = now\<rparr>
         in case write_fault d1 of
              Some code \<Rightarrow>
                (Returns \<lparr>status = 500,
                   json = Failure (Error_message (WriteFailed (IOError code)))\<rparr>, d1)
            | None \<Rightarrow>
                (Returns \<lparr>status = 201, json = Success_change Created newTodo\<rparr>,
                 d1\<lparr>backing := Text (JSON_stringify (todos @ [newTodo]))\<rparr>)))"
  using assms
  by (cases "write_fault d1"; cases "todos = []")
     (simp_all add: post_todo_def catch_def await_def return_def Let_def is_string_def
        call_trim_def generateUniqueId_stored [OF read_again [OF assms(1)]]
        writeTodosToFile_ok writeTodosToFile_fault truthy_default)



lemma parseInt_examples:
  "parseInt (js ''1'') = Num 1" "parseInt (js ''1abc'') = Num 1" "parseInt (js ''abc'') = NaN"
  by (simp_all add: parseInt_def js_def is_space_def is_radix_digit_def digit_val_def
      radix_value_def Let_def js_number_exact)


lemma stored_read:
  assumes "stored d = Some todos"
  obtains d1 where "readTodosFromFile d = (Returns todos, d1)" and "stored d1 = Some todos"
    and "write_fault d1 = write_fault d"
proof -
  from assms obtain d1 where r: "readTodosFromFile d = (Returns todos, d1)"
    by (auto simp: stored_Some)
  moreover have "stored d1 = Some todos"
    using read_again [OF r] by (auto simp: stored_Some)
  moreover have "write_fault d1 = write_fault d"
    by (rule read_write_fault [OF r])
  ultimately show ?thesis by (rule that)
qed

lemma JSON_parse_garbage: "JSON_parse (js ''{oops'') = None"
  by code_simp




lemma next_id_greater:
  "t \<in> set todos \<Longrightarrow> id' t < (if todos = [] then 1 else Max (set (map id' todos)) + 1)"
proof -
  assume "t \<in> set todos"
  then have "id' t \<le> Max (set (map id' todos))" and "todos \<noteq> []" by auto
  then show ?thesis by simp
qed




text \<open>A \<^verbatim>\<open>POST\<close> on the collection of one todo with the id \<open>2^53\<close>.\<close>

lemma post_todo_rounds:
  "post_todo 65535 (js ''t1'') \<lparr>body_title = Some (JStr (js ''a'')), body_completed = None\<rparr>
     \<lparr>backing = Text (JSON_stringify
        [\<lparr>id' = 9007199254740992, title = js ''b'', completed = False,
           createTime = js ''t0''\<rparr>]),
      write_fault = None\<rparr>
   = (Returns \<lparr>status = 201, json = Success_change Created
        \<lparr>id' = 9007199254740992, title = js ''a'', completed = False,
           createTime = js ''t1''\<rparr>\<rparr>,
      \<lparr>backing = Text (JSON_stringify
         [\<lparr>id' = 9007199254740992, title = js ''b'', completed = False,
            createTime = js ''t0''\<rparr>,
          \<lparr>id' = 9007199254740992, title = js ''a'', completed = False,
            createTime = js ''t1''\<rparr>]),
       write_fault = None\<rparr>)"
proof -
  define t where "t = \<lparr>id' = 9007199254740992, title = js ''b'', completed = False,
    createTime = js ''t0''\<rparr>"
  define d where "d = \<lparr>backing = Text (JSON_stringify [t]), write_fault = None\<rparr>"
  have r: "readTodosFromFile d = (Returns [t], d)"
    by (simp add: d_def read_stringified)
  have wf: "write_fault d = None" by (simp add: d_def)
  have ne: "js ''a'' \<noteq> []" and tr: "trim (js ''a'') = js ''a''"
    by (simp_all add: js_def trim_def is_space_def)
  have next_id: "to_double (id' t + 1) = 9007199254740992"
    using to_double_tie by (simp add: t_def)
  have "post_todo 65535 (js ''t1'') \<lparr>body_title = Some (JStr (js ''a'')), body_completed = None\<rparr> d
        = (Returns \<lparr>status = 201, json = Success_change Created
             \<lparr>id' = 9007199254740992, title = js ''a'', completed = False,
                createTime = js ''t1''\<rparr>\<rparr>,
           d\<lparr>backing := Text (JSON_stringify
             [t, \<lparr>id' = 9007199254740992, title = js ''a'', completed = False,
                   createTime = js ''t1''\<rparr>])\<rparr>)"
    using ne by (simp add: post_todo_stored [OF r _ ne] wf tr next_id Let_def)
  then show ?thesis by (simp add: d_def t_def)
qed

section \<open>Creating a todo\<close>

text \<open>
  C1, as stated, fails: the sum \<^verbatim>\<open>maxId + 1\<close> is rounded to a double. On the stored
  collection of one todo with the id \<open>2^53 = 9007199254740992\<close>, a \<^verbatim>\<open>POST /todo\<close> with
  a valid title answers 201 with the id \<open>2^53\<close> again: not the maximum plus 1, and not
  greater than the id already there.
\<close>

theorem post_todo_creates_counterexample:
  "post_todo 65535 (js ''t1'') \<lparr>body_title = Some (JStr (js ''a'')), body_completed = None\<rparr>
     \<lparr>backing = Text (JSON_stringify
        [\<lparr>id' = 9007199254740992, title = js ''b'', completed = False,
           createTime = js ''t0''\<rparr>]),
      write_fault = None\<rparr>
   = (Returns \<lparr>status = 201, json = Success_change Created
        \<lparr>id' = 9007199254740992, title = js ''a'', completed = False,
           createTime = js ''t1''\<rparr>\<rparr>,
      \<lparr>backing = Text (JSON_stringify
         [\<lparr>id' = 9007199254740992, title = js ''b'', completed = False,
            createTime = js ''t0''\<rparr>,
          \<lparr>id' = 9007199254740992, title = js ''a'', completed = False,
            createTime = js ''t1''\<rparr>]),
       write_fault = None\<rparr>)"
  by (rule post_todo_rounds)

text \<open>
  C1, amended: for every stored collection whose ids are below \<open>2^53\<close> in absolute
  value and that has no more todos than the engine accepts arguments in a call, on a disk
  that accepts the write, a \<^verbatim>\<open>POST /todo\<close> with a valid title (a non-empty string)
  answers 201 and stores, after the todos already there, a new todo whose id is 1 when the collection is empty and the
  maximum of the ids plus 1 otherwise, hence greater than every id already there; the
  response echoes the trimmed title, \<open>completed\<close> (false when the body omits it) and
  the creation timestamp.
\<close>

theorem post_todo_creates:
  assumes "stored d = Some todos" and "write_fault d = None"
    and "body_title body = Some (JStr s)" and "s \<noteq> []"
    and "\<forall>t\<in>set todos. \<bar>id' t\<bar> < 2 ^ 53" and "length todos \<le> max_arguments"
  shows "\<exists>d' newTodo.
           post_todo max_arguments now body d
             = (Returns \<lparr>status = 201, json = Success_change Created newTodo\<rparr>, d') \<and>
           stored d' = Some (todos @ [newTodo]) \<and>
           id' newTodo = (if todos = [] then 1 else Max (set (map id' todos)) + 1) \<and>
           (\<forall>t\<in>set todos. id' t < id' newTodo) \<and>
           title newTodo = trim s \<and>
           completed newTodo = truthy (body_completed body) \<and>
           (body_completed body = None \<longrightarrow> \<not> completed newTodo) \<and>
           createTime newTodo = now"
proof -
  from assms(1) obtain d1 where r: "readTodosFromFile d = (Returns todos, d1)"
    by (auto simp: stored_Some)
  have w1: "write_fault d1 = None"
    using read_write_fault [OF r] assms(2) by simp
  define newId where "newId = (if todos = [] then 1 else Max (set (map id' todos)) + 1)"
  define newTodo where
    "newTodo = \<lparr>id' = newId, title = trim s, completed = truthy (body_completed body),
                 createTime = now\<rparr>"
  have exact: "(if todos = [] then 1 else to_double (Max (set (map id' todos)) + 1)) = newId"
    using next_id_exact [OF assms(5)] by (simp add: newId_def)
  have "post_todo max_arguments now body d
        = (Returns \<lparr>status = 201, json = Success_change Created newTodo\<rparr>,
           d1\<lparr>backing := Text (JSON_stringify (todos @ [newTodo]))\<rparr>)"
    using assms(6) w1
    by (simp add: post_todo_stored [OF r assms(3,4)] Let_def exact newTodo_def)
  moreover have "\<forall>t\<in>set todos. id' t < newId"
    using next_id_greater [of _ todos] by (simp add: newId_def)
  ultimately show ?thesis
    by (intro exI [of _ "d1\<lparr>backing := Text (JSON_stringify (todos @ [newTodo]))\<rparr>"]
          exI [of _ newTodo])
       (simp add: stored_written newTodo_def newId_def)
qed

theorem post_todo_creates_witness:
  "stored \<lparr>backing = Text (JSON_stringify
       [\<lparr>id' = 7, title = js ''walk dog'', completed = True, createTime = js ''t0''\<rparr>]),
     write_fault = None\<rparr>
   = Some [\<lparr>id' = 7, title = js ''walk dog'', completed = True, createTime = js ''t0''\<rparr>] \<and>
   js '' buy milk '' \<noteq> [] \<and>
   list_all (\<lambda>t. \<bar>id' t\<bar> < 2 ^ 53)
     [\<lparr>id' = 7, title = js ''walk dog'', completed = True, createTime = js ''t0''\<rparr>] \<and>
   length [\<lparr>id' = 7, title = js ''walk dog'', completed = True, createTime = js ''t0''\<rparr>]
     \<le> (65535 :: nat) \<and>
   (\<exists>d' newTodo.
      post_todo 65535 (js ''t1'')
        \<lparr>body_title = Some (JStr (js '' buy milk '')), body_completed = None\<rparr>
        \<lparr>backing = Text (JSON_stringify
           [\<lparr>id' = 7, title = js ''walk dog'', completed = True, createTime = js ''t0''\<rparr>]),
         write_fault = None\<rparr>
      = (Returns \<lparr>status = 201, json = Success_change Created newTodo\<rparr>, d') \<and>
      stored d' = Some
        [\<lparr>id' = 7, title = js ''walk dog'', completed = True, createTime = js ''t0''\<rparr>, newTodo] \<and>
      id' newTodo = 8 \<and> title newTodo = js ''buy milk'' \<and> \<not> completed newTodo \<and>
      createTime newTodo = js ''t1'')"
proof -
  define t where
    "t = \<lparr>id' = 7, title = js ''walk dog'', completed = True, createTime = js ''t0''\<rparr>"
  define d where "d = \<lparr>backing = Text (JSON_stringify [t]), write_fault = None\<rparr>"
  define body where
    "body = \<lparr>body_title = Some (JStr (js '' buy milk '')), body_completed = None\<rparr>"
  have st: "stored d = Some [t]" by (simp add: d_def stored_text)
  have wf: "write_fault d = None" by (simp add: d_def)
  have bt: "body_title body = Some (JStr (js '' buy milk ''))" by (simp add: body_def)
  have ne: "js '' buy milk '' \<noteq> []" by (simp add: js_def)
  have safe: "\<forall>t\<in>set [t]. \<bar>id' t\<bar> < 2 ^ 53" by (simp add: t_def)
  have len: "length [t] \<le> (65535 :: nat)" by simp
  have tr: "trim (js '' buy milk '') = js ''buy milk''"
    by (simp add: trim_def js_def is_space_def)
  have "\<exists>d' newTodo.
      post_todo 65535 (js ''t1'') body d
      = (Returns \<lparr>status = 201, json = Success_change Created newTodo\<rparr>, d') \<and>
      stored d' = Some [t, newTodo] \<and>
      id' newTodo = 8 \<and> title newTodo = js ''buy milk'' \<and> \<not> completed newTodo \<and>
      createTime newTodo = js ''t1''"
    using post_todo_creates [OF st wf bt ne safe len, of "js ''t1''"]
    by (simp add: body_def tr) (auto simp: t_def)
  with st ne safe len show ?thesis
    by (simp add: t_def d_def body_def)
qed

text \<open>
  C5: for every state of the disk, a \<^verbatim>\<open>POST /todo\<close> whose body has no \<^verbatim>\<open>title\<close>, or a
  \<^verbatim>\<open>title\<close> that is not a string (such as \<^verbatim>\<open>123\<close>), answers 400 and leaves the disk as
  it was: nothing is read or written.
\<close>

theorem post_todo_rejects_bad_title:
  "\<not> is_string (body_title body) \<Longrightarrow>
   post_todo max_arguments now body d
   = (Returns \<lparr>status = 400, json = Failure Title_required\<rparr>, d)"
  by (simp add: post_todo_def catch_def Let_def return_def)

theorem post_todo_rejects_bad_title_witness:
  "\<not> is_string (body_title \<lparr>body_title = Some (JNum 123), body_completed = None\<rparr>) \<and>
   \<not> is_string (body_title \<lparr>body_title = None, body_completed = Some (JBool True)\<rparr>) \<and>
   post_todo 65535 (js ''t1'') \<lparr>body_title = Some (JNum 123), body_completed = None\<rparr>
     \<lparr>backing = Text (js ''[]''), write_fault = None\<rparr>
   = (Returns \<lparr>status = 400, json = Failure Title_required\<rparr>,
      \<lparr>backing = Text (js ''[]''), write_fault = None\<rparr>) \<and>
   post_todo 65535 (js ''t1'') \<lparr>body_title = None, body_completed = Some (JBool True)\<rparr>
     \<lparr>backing = Missing, write_fault = None\<rparr>
   = (Returns \<lparr>status = 400, json = Failure Title_required\<rparr>,
      \<lparr>backing = Missing, write_fault = None\<rparr>)"
  using
    post_todo_rejects_bad_title [of "\<lparr>body_title = Some (JNum 123), body_completed = None\<rparr>"
      65535 "js ''t1''" "\<lparr>backing = Text (js ''[]''), write_fault = None\<rparr>"]
    post_todo_rejects_bad_title [of "\<lparr>body_title = None, body_completed = Some (JBool True)\<rparr>"
      65535 "js ''t1''" "\<lparr>backing = Missing, write_fault = None\<rparr>"]
  by (simp add: is_string_def)

text \<open>
  C10: a \<^verbatim>\<open>POST /todo\<close> whose title is the string of one space passes the validation:
  on a disk without the file it answers 201 and stores a todo whose title is the empty
  string.
\<close>

theorem post_todo_blank_title:
  "post_todo max_arguments now \<lparr>body_title = Some (JStr (js '' '')), body_completed = None\<rparr>
     \<lparr>backing = Missing, write_fault = None\<rparr>
   = (Returns \<lparr>status = 201, json = Success_change Created
        \<lparr>id' = 1, title = [], completed = False, createTime = now\<rparr>\<rparr>,
      \<lparr>backing = Text (JSON_stringify
         [\<lparr>id' = 1, title = [], completed = False, createTime = now\<rparr>]),
       write_fault = None\<rparr>)"
proof -
  define d1 where "d1 = \<lparr>backing = Text (JSON_stringify []), write_fault = None\<rparr>"
  have r: "readTodosFromFile \<lparr>backing = Missing, write_fault = None\<rparr> = (Returns [], d1)"
    by (simp add: readTodosFromFile_def fs_readFile_def await_def return_def
        writeTodosToFile_ok d1_def)
  have w1: "write_fault d1 = None" by (simp add: d1_def)
  have ne: "js '' '' \<noteq> []" by (simp add: js_def)
  have "post_todo max_arguments now
          \<lparr>body_title = Some (JStr (js '' '')), body_completed = None\<rparr>
          \<lparr>backing = Missing, write_fault = None\<rparr>
        = (Returns \<lparr>status = 201, json = Success_change Created
             \<lparr>id' = 1, title = [], completed = False, createTime = now\<rparr>\<rparr>,
           d1\<lparr>backing := Text (JSON_stringify
             [\<lparr>id' = 1, title = [], completed = False, createTime = now\<rparr>])\<rparr>)"
    using w1 by (simp add: post_todo_stored [OF r _ ne] trim_blank Let_def)
  then show ?thesis by (simp add: d1_def)
qed

theorem post_todo_blank_title_witness:
  "post_todo 65535 (js ''t1'') \<lparr>body_title = Some (JStr (js '' '')), body_completed = None\<rparr>
     \<lparr>backing = Missing, write_fault = None\<rparr>
   = (Returns \<lparr>status = 201, json = Success_change Created
        \<lparr>id' = 1, title = [], completed = False, createTime = js ''t1''\<rparr>\<rparr>,
      \<lparr>backing = Text (JSON_stringify
         [\<lparr>id' = 1, title = [], completed = False, createTime = js ''t1''\<rparr>]),
       write_fault = None\<rparr>)"
  by (rule post_todo_blank_title)

section \<open>Loading the collection\<close>

text \<open>
  C3: when the backing file does not exist (and the disk accepts the write),
  \<^verbatim>\<open>readTodosFromFile\<close> creates it with the text \<^verbatim>\<open>[]\<close>, which parses as the empty
  array, and returns the empty sequence; when the file holds a text that \<^verbatim>\<open>JSON.parse\<close>
  rejects, it throws the read error that carries the \<^verbatim>\<open>SyntaxError\<close>, and every handler
  that reaches the store answers 500 with it.
\<close>

theorem readTodosFromFile_missing_or_unparsable:
  "(backing d = Missing \<and> write_fault d = None \<longrightarrow>
      readTodosFromFile d = (Returns [], d\<lparr>backing := Text (js ''[]'')\<rparr>) \<and>
      JSON_parse (js ''[]'') = Some (JArr [])) \<and>
   (backing d = Text fileContent \<and> JSON_parse fileContent = None \<longrightarrow>
      readTodosFromFile d = (Throws (ReadFailed SyntaxError), d) \<and>
      get_todos d
        = (Returns \<lparr>status = 500, json = Failure (Error_message (ReadFailed SyntaxError))\<rparr>, d) \<and>
      get_todo p d
        = (Returns \<lparr>status = 500, json = Failure (Error_message (ReadFailed SyntaxError))\<rparr>, d) \<and>
      put_todo p body d
        = (Returns \<lparr>status = 500, json = Failure (Error_message (ReadFailed SyntaxError))\<rparr>, d) \<and>
      delete_todo p d
        = (Returns \<lparr>status = 500, json = Failure (Error_message (ReadFailed SyntaxError))\<rparr>, d) \<and>
      (truthy (body_title body) \<and> is_string (body_title body) \<longrightarrow>
       post_todo max_arguments now body d
         = (Returns \<lparr>status = 500, json = Failure (Error_message (ReadFailed SyntaxError))\<rparr>, d)))"
proof (intro conjI impI)
  assume "backing d = Missing \<and> write_fault d = None"
  then show "readTodosFromFile d = (Returns [], d\<lparr>backing := Text (js ''[]'')\<rparr>)"
    by (simp add: readTodosFromFile_def fs_readFile_def await_def return_def
        writeTodosToFile_ok JSON_stringify_Nil)
next
  show "JSON_parse (js ''[]'') = Some (JArr [])" by (rule JSON_parse_empty)
next
  assume a: "backing d = Text fileContent \<and> JSON_parse fileContent = None"
  then show r: "readTodosFromFile d = (Throws (ReadFailed SyntaxError), d)"
    by (simp add: readTodosFromFile_def fs_readFile_def)
  show "get_todos d
        = (Returns \<lparr>status = 500, json = Failure (Error_message (ReadFailed SyntaxError))\<rparr>, d)"
    by (simp add: get_todos_def catch_def await_def r)
  show "get_todo p d
        = (Returns \<lparr>status = 500, json = Failure (Error_message (ReadFailed SyntaxError))\<rparr>, d)"
    by (simp add: get_todo_def catch_def await_def Let_def r)
  show "put_todo p body d
        = (Returns \<lparr>status = 500, json = Failure (Error_message (ReadFailed SyntaxError))\<rparr>, d)"
    by (simp add: put_todo_def catch_def await_def Let_def r)
  show "delete_todo p d
        = (Returns \<lparr>status = 500, json = Failure (Error_message (ReadFailed SyntaxError))\<rparr>, d)"
    by (simp add: delete_todo_def catch_def await_def Let_def r)
  assume "truthy (body_title body) \<and> is_string (body_title body)"
  then show "post_todo max_arguments now body d
        = (Returns \<lparr>status = 500, json = Failure (Error_message (ReadFailed SyntaxError))\<rparr>, d)"
    by (simp add: post_todo_def catch_def await_def Let_def r)
qed

theorem readTodosFromFile_missing_or_unparsable_witness:
  "readTodosFromFile \<lparr>backing = Missing, write_fault = None\<rparr>
     = (Returns [], \<lparr>backing = Text (js ''[]''), write_fault = None\<rparr>) \<and>
   JSON_parse (js ''{oops'') = None \<and>
   readTodosFromFile \<lparr>backing = Text (js ''{oops''), write_fault = None\<rparr>
     = (Throws (ReadFailed SyntaxError), \<lparr>backing = Text (js ''{oops''), write_fault = None\<rparr>) \<and>
   get_todos \<lparr>backing = Text (js ''{oops''), write_fault = None\<rparr>
     = (Returns \<lparr>status = 500, json = Failure (Error_message (ReadFailed SyntaxError))\<rparr>,
        \<lparr>backing = Text (js ''{oops''), write_fault = None\<rparr>)"
  using
    readTodosFromFile_missing_or_unparsable
      [of "\<lparr>backing = Missing, write_fault = None\<rparr>"]
    readTodosFromFile_missing_or_unparsable
      [of "\<lparr>backing = Text (js ''{oops''), write_fault = None\<rparr>" "js ''{oops''"]
    JSON_parse_garbage
  by simp

text \<open>
  C4: round trip. For every sequence of todos, on a disk that accepts the write,
  \<^verbatim>\<open>writeTodosToFile\<close> followed by \<^verbatim>\<open>readTodosFromFile\<close> returns the same sequence:
  the same todos, field by field, in the same order.
\<close>

theorem write_then_read:
  "write_fault d = None \<Longrightarrow>
   \<exists>d'. writeTodosToFile todos d = (Returns (), d') \<and>
        readTodosFromFile d' = (Returns todos, d')"
  by (simp add: writeTodosToFile_ok read_stringified)

theorem write_then_read_witness:
  "write_fault \<lparr>backing = Missing, write_fault = None\<rparr> = None \<and>
   (\<exists>d'. writeTodosToFile
           [\<lparr>id' = 1, title = js ''say hi'' @ [0x22, 0x0A, 0xD800], completed = True,
              createTime = js ''t0''\<rparr>,
            \<lparr>id' = - 2, title = [], completed = False, createTime = js ''t1''\<rparr>]
           \<lparr>backing = Missing, write_fault = None\<rparr> = (Returns (), d') \<and>
         readTodosFromFile d'
           = (Returns
               [\<lparr>id' = 1, title = js ''say hi'' @ [0x22, 0x0A, 0xD800], completed = True,
                  createTime = js ''t0''\<rparr>,
                \<lparr>id' = - 2, title = [], completed = False, createTime = js ''t1''\<rparr>], d'))"
  using write_then_read [of "\<lparr>backing = Missing, write_fault = None\<rparr>"
      "[\<lparr>id' = 1, title = js ''say hi'' @ [0x22, 0x0A, 0xD800], completed = True,
          createTime = js ''t0''\<rparr>,
        \<lparr>id' = - 2, title = [], completed = False, createTime = js ''t1''\<rparr>]"]
  by simp

section \<open>Updating a todo\<close>






section \<open>Deleting a todo\<close>




section \<open>Ids that are not numbers\<close>

text \<open>
  C7, as stated, fails: \<^verbatim>\<open>parseInt\<close> reads the longest numeric prefix, so the
  id \<^verbatim>\<open>1abc\<close>, which is not a number, is looked up as 1: \<^verbatim>\<open>GET\<close> answers 200 with the
  todo 1 and \<^verbatim>\<open>DELETE\<close> removes it.
\<close>

theorem unparsed_id_misses_counterexample:
  "parseInt (js ''1abc'') = Num 1 \<and>
   get_todo (js ''1abc'')
     \<lparr>backing = Text (JSON_stringify
        [\<lparr>id' = 1, title = js ''buy milk'', completed = True, createTime = js ''t0''\<rparr>]),
      write_fault = None\<rparr>
   = (Returns \<lparr>status = 200, json = Success_todo
        \<lparr>id' = 1, title = js ''buy milk'', completed = True, createTime = js ''t0''\<rparr>\<rparr>,
      \<lparr>backing = Text (JSON_stringify
         [\<lparr>id' = 1, title = js ''buy milk'', completed = True, createTime = js ''t0''\<rparr>]),
       write_fault = None\<rparr>) \<and>
   delete_todo (js ''1abc'')
     \<lparr>backing = Text (JSON_stringify
        [\<lparr>id' = 1, title = js ''buy milk'', completed = True, createTime = js ''t0''\<rparr>]),
      write_fault = None\<rparr>
   = (Returns \<lparr>status = 200, json = Success_delete (Deleted (Num 1)) (Num 1)\<rparr>,
      \<lparr>backing = Text (JSON_stringify []), write_fault = None\<rparr>)"
proof -
  define t where
    "t = \<lparr>id' = 1, title = js ''buy milk'', completed = True, createTime = js ''t0''\<rparr>"
  define d where "d = \<lparr>backing = Text (JSON_stringify [t]), write_fault = None\<rparr>"
  have r: "readTodosFromFile d = (Returns [t], d)"
    by (simp add: d_def read_stringified)
  have id1: "id' t = 1" by (simp add: t_def)
  have wf: "write_fault d = None" by (simp add: d_def)
  have "get_todo (js ''1abc'') d = (Returns \<lparr>status = 200, json = Success_todo t\<rparr>, d)"
    by (simp add: get_todo_stored [OF r] parseInt_examples id1)
  moreover have "delete_todo (js ''1abc'') d
      = (Returns \<lparr>status = 200, json = Success_delete (Deleted (Num 1)) (Num 1)\<rparr>,
         d\<lparr>backing := Text (JSON_stringify [])\<rparr>)"
    by (simp add: delete_todo_stored [OF r] parseInt_examples id1 wf splice1_def)
  ultimately show ?thesis by (simp add: d_def t_def parseInt_examples)
qed

text \<open>
  C7, amended: for every id on which \<^verbatim>\<open>parseInt\<close> yields \<^verbatim>\<open>NaN\<close> (after leading
  white space, an optional sign and an optional \<^verbatim>\<open>0x\<close>, no digit follows) and every
  stored collection, \<^verbatim>\<open>GET\<close>, \<^verbatim>\<open>PUT\<close> and \<^verbatim>\<open>DELETE /todo/:id\<close> answer 404 and leave
  the stored collection as it was; when the file exists, the disk is unchanged.
\<close>

theorem unparsed_id_misses:
  assumes "parseInt p = NaN" and "stored d = Some todos"
  shows "fst (get_todo p d) = Returns \<lparr>status = 404, json = Failure (Get_not_found NaN)\<rparr> \<and>
         stored (snd (get_todo p d)) = Some todos \<and>
         fst (put_todo p body d) = Returns \<lparr>status = 404, json = Failure (Put_not_found NaN)\<rparr> \<and>
         stored (snd (put_todo p body d)) = Some todos \<and>
         fst (delete_todo p d)
           = Returns \<lparr>status = 404, json = Failure (Delete_not_found NaN)\<rparr> \<and>
         stored (snd (delete_todo p d)) = Some todos \<and>
         ((\<exists>fileContent. backing d = Text fileContent) \<longrightarrow>
            snd (get_todo p d) = d \<and> snd (put_todo p body d) = d \<and> snd (delete_todo p d) = d)"
proof -
  from assms(2) obtain d1 where r: "readTodosFromFile d = (Returns todos, d1)"
    and s1: "stored d1 = Some todos"
    by (rule stored_read)
  have f: "find (\<lambda>item. Num (id' item) = NaN) todos = None"
    by (simp add: find_None_id)
  have fi: "findIndex (\<lambda>item. Num (id' item) = NaN) todos = None"
    by (simp add: findIndex_None)
  have same: "(\<exists>fileContent. backing d = Text fileContent) \<longrightarrow> d1 = d"
    using read_cases [OF r] by auto
  show ?thesis
    using assms(1) f fi s1 same
    by (simp add: get_todo_stored [OF r] put_todo_stored [OF r] delete_todo_stored [OF r])
qed

theorem unparsed_id_misses_witness:
  "parseInt (js ''abc'') = NaN \<and>
   stored \<lparr>backing = Text (JSON_stringify
       [\<lparr>id' = 1, title = js ''buy milk'', completed = True, createTime = js ''t0''\<rparr>]),
     write_fault = None\<rparr>
   = Some [\<lparr>id' = 1, title = js ''buy milk'', completed = True, createTime = js ''t0''\<rparr>] \<and>
   get_todo (js ''abc'')
     \<lparr>backing = Text (JSON_stringify
        [\<lparr>id' = 1, title = js ''buy milk'', completed = True, createTime = js ''t0''\<rparr>]),
      write_fault = None\<rparr>
   = (Returns \<lparr>status = 404, json = Failure (Get_not_found NaN)\<rparr>,
      \<lparr>backing = Text (JSON_stringify
         [\<lparr>id' = 1, title = js ''buy milk'', completed = True, createTime = js ''t0''\<rparr>]),
       write_fault = None\<rparr>) \<and>
   delete_todo (js ''abc'')
     \<lparr>backing = Text (JSON_stringify
        [\<lparr>id' = 1, title = js ''buy milk'', completed = True, createTime = js ''t0''\<rparr>]),
      write_fault = None\<rparr>
   = (Returns \<lparr>status = 404, json = Failure (Delete_not_found NaN)\<rparr>,
      \<lparr>backing = Text (JSON_stringify
         [\<lparr>id' = 1, title = js ''buy milk'', completed = True, createTime = js ''t0''\<rparr>]),
       write_fault = None\<rparr>)"
proof -
  define t where
    "t = \<lparr>id' = 1, title = js ''buy milk'', completed = True, createTime = js ''t0''\<rparr>"
  define d where "d = \<lparr>backing = Text (JSON_stringify [t]), write_fault = None\<rparr>"
  have pi: "parseInt (js ''abc'') = NaN" by (rule parseInt_examples)
  have st: "stored d = Some [t]" by (simp add: d_def stored_text)
  have tx: "\<exists>fileContent. backing d = Text fileContent" by (simp add: d_def)
  from unparsed_id_misses [OF pi st, of "\<lparr>body_title = None, body_completed = None\<rparr>"] tx
  have "get_todo (js ''abc'') d
          = (Returns \<lparr>status = 404, json = Failure (Get_not_found NaN)\<rparr>, d) \<and>
        delete_todo (js ''abc'') d
          = (Returns \<lparr>status = 404, json = Failure (Delete_not_found NaN)\<rparr>, d)"
    by (auto simp: prod_eq_iff)
  with pi st show ?thesis by (simp add: d_def t_def)
qed

section \<open>The invariant of the collection\<close>




end
